theory Spec2Isabelle
  imports Main "HOL-Library.AList" "HOL-Library.Sublist"
begin

section \<open>JavaScript values and objects\<close>

text \<open>
  The strategy of \<^verbatim>\<open>lib/passport-cas.js\<close> works on untyped JavaScript values: request
  headers, query parameters and the extended attributes returned by the CAS server.
  \<open>Num\<close> carries the integer-valued numbers (the retry token is one), \<open>Arr\<close> an array,
  \<open>Obj\<close> an object as the list of its own properties in insertion order.  Objects are
  only ever read by key, so the order is visible to \<^verbatim>\<open>for ... in\<close> alone.
\<close>

datatype jsval =
    Undefined
  | Null
  | Boolean bool
  | Num int
  | Str string
  | Arr "jsval list"
  | Obj "(string \<times> jsval) list"

type_synonym jsobj = "(string \<times> jsval) list"

text \<open>\<^verbatim>\<open>!!v\<close>: the values that count as true in a condition.\<close>

fun truthy :: "jsval \<Rightarrow> bool" where
  "truthy Undefined = False"
| "truthy Null = False"
| "truthy (Boolean b) = b"
| "truthy (Num n) = (n \<noteq> 0)"
| "truthy (Str s) = (s \<noteq> [])"
| "truthy (Arr xs) = True"
| "truthy (Obj ps) = True"

text \<open>\<^verbatim>\<open>a || b\<close>\<close>

definition js_or :: "jsval \<Rightarrow> jsval \<Rightarrow> jsval" where
  "js_or a b = (if truthy a then a else b)"

text \<open>\<^verbatim>\<open>o[k]\<close>, \<^verbatim>\<open>o[k] = v\<close>, \<^verbatim>\<open>delete o[k]\<close> and the keys \<^verbatim>\<open>for (k in o)\<close> visits.\<close>

definition prop_get :: "jsobj \<Rightarrow> string \<Rightarrow> jsval" where
  "prop_get obj k = (case map_of obj k of None \<Rightarrow> Undefined | Some v \<Rightarrow> v)"

definition prop_set :: "string \<Rightarrow> jsval \<Rightarrow> jsobj \<Rightarrow> jsobj" where
  "prop_set k v obj = AList.update k v obj"

definition prop_delete :: "string \<Rightarrow> jsobj \<Rightarrow> jsobj" where
  "prop_delete k obj = AList.delete k obj"

definition keys :: "jsobj \<Rightarrow> string list" where
  "keys obj = map fst obj"

text \<open>\<^verbatim>\<open>Array.isArray(v)\<close>\<close>

fun isArray :: "jsval \<Rightarrow> bool" where
  "isArray (Arr xs) = True"
| "isArray v = False"

text \<open>\<^verbatim>\<open>v[0]\<close> on an array: \<^verbatim>\<open>undefined\<close> when the array is empty.\<close>

fun index0 :: "jsval \<Rightarrow> jsval" where
  "index0 (Arr (x # xs)) = x"
| "index0 v = Undefined"

text \<open>\<^verbatim>\<open>typeof v == 'object'\<close>: objects, arrays and \<^verbatim>\<open>null\<close>.\<close>

fun typeof_object :: "jsval \<Rightarrow> bool" where
  "typeof_object Null = True"
| "typeof_object (Arr xs) = True"
| "typeof_object (Obj ps) = True"
| "typeof_object v = False"

section \<open>Mapping the extended attributes into the profile\<close>

text \<open>
  The fourth argument of the validation callback: \<^verbatim>\<open>extended.id\<close>,
  \<^verbatim>\<open>extended.attributes\<close> and \<^verbatim>\<open>extended.PGTIOU\<close>.
\<close>

record extended =
  ext_id :: jsval
  ext_attributes :: jsobj
  ext_PGTIOU :: jsval

text \<open>
  \<^verbatim>\<open>self.casPropertyMap[key] || key\<close>.  The property map is the documented "basic key-value
  object": its values are attribute names, and the empty name is falsy.
\<close>

definition mappedKey :: "(string \<times> string) list \<Rightarrow> string \<Rightarrow> string" where
  "mappedKey pm k = (case map_of pm k of None \<Rightarrow> k | Some a \<Rightarrow> if a = [] then k else a)"

text \<open>The object literal of lines 180-190.\<close>

definition initial_profile :: "string \<Rightarrow> extended \<Rightarrow> jsobj" where
  "initial_profile username ext =
     [(''provider'', Str ''CAS''),
      (''id'', js_or (ext_id ext) (Str username)),
      (''displayName'', js_or (prop_get (ext_attributes ext) ''displayName'') (Str username)),
      (''name'', Obj [(''familyName'', Null), (''givenName'', Null), (''middleName'', Null)]),
      (''emails'', Arr [])]"

text \<open>The own properties of a value that is an object (\<open>profile.name\<close> and its fields).\<close>

fun props_of :: "jsval \<Rightarrow> jsobj" where
  "props_of (Obj ps) = ps"
| "props_of v = []"

fun elements :: "jsval \<Rightarrow> jsval list" where
  "elements (Arr xs) = xs"
| "elements v = []"

text \<open>
  The body of the inner loop (lines 196-203): one field of \<open>profile.name\<close>.  The state is
  the pair of the profile and the attributes, both mutated in place by the source.
\<close>

definition name_step :: "(string \<times> string) list \<Rightarrow> string \<Rightarrow> jsobj \<times> jsobj \<Rightarrow> jsobj \<times> jsobj" where
  "name_step pm subKey st =
     (case st of (profile, attributes) \<Rightarrow>
        let mk = mappedKey pm subKey;
            val = prop_get attributes mk;
            nm = props_of (prop_get profile ''name'');
            nm' = (if isArray val then prop_set subKey (index0 val) nm
                   else prop_set subKey val nm)
        in (prop_set ''name'' (Obj nm') profile, prop_delete mk attributes))"

text \<open>Lines 207-225: the emails.\<close>

definition email_record :: "jsval \<Rightarrow> jsval" where
  "email_record v = Obj [(''value'', v), (''type'', Str ''default'')]"

definition emails_step :: "(string \<times> string) list \<Rightarrow> jsobj \<times> jsobj \<Rightarrow> jsobj \<times> jsobj" where
  "emails_step pm st =
     (case st of (profile, attributes) \<Rightarrow>
        let mk = mappedKey pm ''emails'';
            emails = prop_get attributes mk;
            profile' =
              (if isArray emails then
                 (if typeof_object (index0 emails) then prop_set ''emails'' emails profile
                  else prop_set ''emails''
                         (Arr (elements (prop_get profile ''emails'') @
                               map email_record (elements emails))) profile)
               else prop_set ''emails'' (Arr [emails]) profile)
        in (profile', prop_delete mk attributes))"

text \<open>Lines 228-236: every other key of the profile.\<close>

definition other_step :: "(string \<times> string) list \<Rightarrow> string \<Rightarrow> jsobj \<times> jsobj \<Rightarrow> jsobj \<times> jsobj" where
  "other_step pm key st =
     (case st of (profile, attributes) \<Rightarrow>
        let mk = mappedKey pm key;
            val = prop_get attributes mk;
            profile' =
              (if isArray val then prop_set key (index0 val) profile
               else if truthy val then prop_set key val profile
               else profile)
        in (profile', prop_delete mk attributes))"

text \<open>The body of \<^verbatim>\<open>for (var key in profile)\<close>, lines 193-238.\<close>

definition profile_step :: "(string \<times> string) list \<Rightarrow> string \<Rightarrow> jsobj \<times> jsobj \<Rightarrow> jsobj \<times> jsobj" where
  "profile_step pm key st =
     (if key = ''name'' then
        fold (name_step pm) (keys (props_of (prop_get (fst st) ''name''))) st
      else if key = ''emails'' then emails_step pm st
      else other_step pm key st)"

text \<open>
  The first loop.  The keys are those of the profile as built by the literal; the loop
  assigns to existing properties only, so the set of keys visited does not change.
\<close>

definition map_attributes :: "(string \<times> string) list \<Rightarrow> jsobj \<times> jsobj \<Rightarrow> jsobj \<times> jsobj" where
  "map_attributes pm st = fold (profile_step pm) (keys (fst st)) st"

text \<open>
  Lines 240-242: \<^verbatim>\<open>for (var key in attributes) profile[key] = attributes[key]\<close>.
\<close>

definition copy_remaining :: "jsobj \<times> jsobj \<Rightarrow> jsobj" where
  "copy_remaining st =
     (case st of (profile, attributes) \<Rightarrow>
        fold (\<lambda>key p. prop_set key (prop_get attributes key) p) (keys attributes) profile)"

text \<open>Lines 179-242 together: the profile handed to the verify callback.\<close>

definition build_profile :: "(string \<times> string) list \<Rightarrow> string \<Rightarrow> extended \<Rightarrow> jsobj" where
  "build_profile pm username ext =
     copy_remaining (map_attributes pm (initial_profile username ext, ext_attributes ext))"


section \<open>The request, the strategy and its collaborators\<close>

text \<open>
  The fields of the Connect/Express request that the strategy reads.  \<open>req_originalUrl\<close>,
  \<open>req_protocol\<close>, \<open>req_query\<close> and \<open>req_session\<close> are absent (\<^verbatim>\<open>undefined\<close>) when the host
  does not provide them; \<open>req_query\<close> is the host's own parse of the query string.
\<close>

record request =
  req_passport :: jsval
  req_originalUrl :: "string option"
  req_url :: string
  req_headers :: "(string \<times> string) list"
  req_protocol :: "string option"
  req_query :: "jsobj option"
  req_session :: "jsobj option"

text \<open>The result of \<^verbatim>\<open>url.parse(u, true)\<close> as far as it is read, and the argument of \<^verbatim>\<open>url.format\<close>.\<close>

record parsed_url =
  pu_host :: jsval
  pu_pathname :: jsval
  pu_query :: jsobj

record url_parts =
  up_protocol :: jsval
  up_host :: jsval
  up_pathname :: jsval
  up_query :: jsobj

text \<open>
  Functions of the platform (Node's \<^verbatim>\<open>url\<close> module and the language itself) that the source
  calls and does not define.  \<open>to_number\<close> is the numeric value a non-nullish operand of
  \<^verbatim>\<open>==\<close> is converted to when the other operand is a number, \<open>None\<close> standing for every
  value that is no integer (\<^verbatim>\<open>NaN\<close> included).
\<close>

record platform =
  url_parse :: "string \<Rightarrow> parsed_url"
  url_format :: "url_parts \<Rightarrow> string"
  encodeURIComponent :: "string \<Rightarrow> string"
  to_number :: "jsval \<Rightarrow> int option"

text \<open>The fields the constructor stores (lines 86-92).\<close>

record strategy =
  casBaseUrl :: string
  casPgtUrl :: jsval
  casPropertyMap :: "(string \<times> string) list"
  casSessionKey :: string
  passReqToCallback :: jsval

text \<open>The arguments \<^verbatim>\<open>cas.validate\<close> passes to its callback: \<^verbatim>\<open>(err, status, username, extended)\<close>.\<close>

record validation =
  val_err :: jsval
  val_username :: string
  val_extended :: extended

text \<open>The arguments of the verify callback, \<open>va_req\<close> present when the request is passed on.\<close>

record verify_args =
  va_req :: "request option"
  va_username :: string
  va_profile :: jsobj

text \<open>
  What the strategy does to the outside, in order: the actions of \<^verbatim>\<open>passport-strategy\<close>
  (\<open>Redirect\<close>, \<open>Fail\<close>, \<open>Error\<close>, \<open>Success\<close>), the calls to the CAS client (\<open>Validate\<close>,
  \<open>GetProxyTicket\<close>), the call of the verify callback (\<open>Verify\<close>, with the request object as it
  stands at that moment), the call of a completion callback (\<open>Done\<close>) and an uncaught
  exception (\<open>Threw\<close>).
\<close>

datatype event =
    Redirect string nat
  | Fail jsval
  | Error jsval
  | Success jsval jsval
  | Validate jsval string
  | Verify request verify_args
  | GetProxyTicket jsval string
  | Done "jsval list"
  | Threw string

text \<open>
  The collaborators: the answer of the CAS server to a validation and to a proxy-ticket
  request, what the verify callback passes to \<^verbatim>\<open>done\<close> (it calls it once), and the clock
  (\<^verbatim>\<open>new Date().getTime()\<close>, milliseconds).
\<close>

record collaborators =
  cas_validate :: "jsval \<Rightarrow> string \<Rightarrow> validation"
  cas_getProxyTicket :: "jsval \<Rightarrow> string \<Rightarrow> jsval \<times> jsval"
  verify :: "request \<Rightarrow> verify_args \<Rightarrow> jsval \<times> jsval \<times> jsval"
  getTime :: int

text \<open>\<^verbatim>\<open>new Error(msg)\<close>\<close>

definition new_Error :: "string \<Rightarrow> jsval" where
  "new_Error msg = Obj [(''message'', Str msg)]"

section \<open>The service URL\<close>

definition opt_str :: "string option \<Rightarrow> jsval" where
  "opt_str x = (case x of None \<Rightarrow> Undefined | Some s \<Rightarrow> Str s)"

text \<open>\<^verbatim>\<open>req.headers[name]\<close>\<close>

definition header :: "request \<Rightarrow> string \<Rightarrow> jsval" where
  "header req name = opt_str (map_of (req_headers req) name)"

text \<open>\<^verbatim>\<open>req.originalUrl || req.url\<close>\<close>

definition request_url :: "request \<Rightarrow> string" where
  "request_url req =
     (case req_originalUrl req of
        None \<Rightarrow> req_url req
      | Some u \<Rightarrow> if u \<noteq> [] then u else req_url req)"

text \<open>
  Lines 129-135: the ticket is deleted from the parsed query, and the parts of the service
  URL are chosen by the precedence of the headers.
\<close>

definition service_parts :: "request \<Rightarrow> parsed_url \<Rightarrow> url_parts" where
  "service_parts req reqURL =
     \<lparr>up_protocol = js_or (js_or (js_or (header req ''x-forwarded-proto'')
                                        (header req ''x-proxied-protocol''))
                                 (opt_str (req_protocol req)))
                          (Str ''http''),
      up_host = js_or (js_or (header req ''x-forwarded-host'') (header req ''host''))
                      (pu_host reqURL),
      up_pathname = js_or (header req ''x-proxied-request-uri'') (pu_pathname reqURL),
      up_query = prop_delete ''ticket'' (pu_query reqURL)\<rparr>"

definition service_url :: "platform \<Rightarrow> request \<Rightarrow> string" where
  "service_url pf req = url_format pf (service_parts req (url_parse pf (request_url req)))"

section \<open>The retry guard\<close>

text \<open>
  \<^verbatim>\<open>Math.round(date.getTime() / 60000)\<close>: rounding to the nearest integer, halves upwards.
\<close>

definition window_token :: "int \<Rightarrow> int" where
  "window_token ms = (ms + 30000) div 60000"

text \<open>
  \<^verbatim>\<open>v != token\<close> with a number on the right: \<^verbatim>\<open>undefined\<close> and \<^verbatim>\<open>null\<close> differ from every
  number, any other value is compared after conversion to a number.
\<close>

definition loose_neq :: "platform \<Rightarrow> jsval \<Rightarrow> int \<Rightarrow> bool" where
  "loose_neq pf v n = (v = Undefined \<or> v = Null \<or> to_number pf v \<noteq> Some n)"

text \<open>The decimal digits of a number, as string concatenation writes it.\<close>

fun dec_nat :: "nat \<Rightarrow> string" where
  "dec_nat n =
     (if n < 10 then [''0123456789'' ! n]
      else dec_nat (n div 10) @ [''0123456789'' ! (n mod 10)])"

definition dec_int :: "int \<Rightarrow> string" where
  "dec_int i = (if i < 0 then CHR ''-'' # dec_nat (nat (- i)) else dec_nat (nat i))"

text \<open>The character classes \<^verbatim>\<open>\d\<close> and \<^verbatim>\<open>[\w.-]\<close>.\<close>

definition is_digit :: "char \<Rightarrow> bool" where
  "is_digit c = (c \<in> set ''0123456789'')"

definition ticket_char :: "char \<Rightarrow> bool" where
  "ticket_char c =
     (c \<in> set ''ABCDEFGHIJKLMNOPQRSTUVWXYZabcdefghijklmnopqrstuvwxyz0123456789_.-'')"

text \<open>
  \<^verbatim>\<open>/_cas_retry=\d+&?/\<close> matched at the head of a string: what follows the match.
\<close>

definition retry_match :: "string \<Rightarrow> string option" where
  "retry_match s =
     (if prefix ''_cas_retry='' s \<and> takeWhile is_digit (drop 11 s) \<noteq> [] then
        (case dropWhile is_digit (drop 11 s) of
           [] \<Rightarrow> Some []
         | c # cs \<Rightarrow> if c = CHR ''&'' then Some cs else Some (c # cs))
      else None)"

text \<open>\<^verbatim>\<open>.replace(/_cas_retry=\d+&?/, '')\<close>: the leftmost match is removed.\<close>

fun strip_retry :: "string \<Rightarrow> string" where
  "strip_retry [] = []"
| "strip_retry (c # cs) =
     (case retry_match (c # cs) of
        Some rest \<Rightarrow> rest
      | None \<Rightarrow> c # strip_retry cs)"

text \<open>
  \<^verbatim>\<open>/([?&])ticket=[\w.-]+/\<close> matched at the head of a string: the captured separator and
  what follows the match.
\<close>

definition ticket_match :: "string \<Rightarrow> (char \<times> string) option" where
  "ticket_match s =
     (case s of
        [] \<Rightarrow> None
      | c # cs \<Rightarrow>
          if (c = CHR ''?'' \<or> c = CHR ''&'') \<and> prefix ''ticket='' cs
             \<and> takeWhile ticket_char (drop 7 cs) \<noteq> []
          then Some (c, dropWhile ticket_char (drop 7 cs))
          else None)"

text \<open>\<^verbatim>\<open>.replace(/([?&])ticket=[\w.-]+/, '$1_cas_retry=' + token)\<close>\<close>

fun swap_ticket :: "string \<Rightarrow> string \<Rightarrow> string" where
  "swap_ticket tok [] = []"
| "swap_ticket tok (c # cs) =
     (case ticket_match (c # cs) of
        Some (sep, rest) \<Rightarrow> sep # ''_cas_retry='' @ tok @ rest
      | None \<Rightarrow> c # swap_ticket tok cs)"

text \<open>Lines 154-156.\<close>

definition retry_url :: "int \<Rightarrow> string \<Rightarrow> string" where
  "retry_url token u = swap_ticket (dec_int token) (strip_retry u)"

section \<open>authenticate\<close>

text \<open>
  Lines 146-162: the validation failed.  Reading \<^verbatim>\<open>req.query['_cas_retry']\<close> throws a
  \<^verbatim>\<open>TypeError\<close> when the request has no parsed query.
\<close>

definition validation_failed ::
  "platform \<Rightarrow> collaborators \<Rightarrow> request \<Rightarrow> jsval \<Rightarrow> event list" where
  "validation_failed pf env req err =
     (let token = window_token (getTime env)
      in case req_query req of
           None \<Rightarrow> [Threw ''TypeError'']
         | Some query \<Rightarrow>
             if loose_neq pf (prop_get query ''_cas_retry'') token
             then [Redirect (retry_url token (request_url req)) 307]
             else [Fail err])"

text \<open>Lines 167-171: the completion handle given to the verify callback.\<close>

definition verified :: "jsval \<times> jsval \<times> jsval \<Rightarrow> event" where
  "verified r =
     (case r of (err, user, info) \<Rightarrow>
        if truthy err then Error err
        else if \<not> truthy user then Fail info
        else Success user info)"

text \<open>
  Lines 173-248: the validation succeeded.  Writing to \<^verbatim>\<open>req.session[...]\<close> throws a
  \<^verbatim>\<open>TypeError\<close> when the request has no session object.
\<close>

definition validation_succeeded ::
  "strategy \<Rightarrow> collaborators \<Rightarrow> request \<Rightarrow> string \<Rightarrow> extended \<Rightarrow> event list \<times> request" where
  "validation_succeeded self env req username ext =
     (case req_session req of
        None \<Rightarrow> ([Threw ''TypeError''], req)
      | Some session \<Rightarrow>
          let session1 = prop_set (casSessionKey self) (Obj []) session;
              session2 =
                (if truthy (casPgtUrl self)
                 then prop_set (casSessionKey self)
                        (Obj (prop_set ''PGTIOU'' (ext_PGTIOU ext)
                               (props_of (prop_get session1 (casSessionKey self)))))
                        session1
                 else session1);
              req' = req\<lparr>req_session := Some session2\<rparr>;
              profile = build_profile (casPropertyMap self) username ext;
              args = \<lparr>va_req = (if truthy (passReqToCallback self) then Some req' else None),
                      va_username = username, va_profile = profile\<rparr>
          in ([Verify req' args, verified (verify env req' args)], req'))"

text \<open>Lines 117-253.  The result is the trace of events and the request as it is left.\<close>

definition authenticate ::
  "platform \<Rightarrow> strategy \<Rightarrow> collaborators \<Rightarrow> request \<Rightarrow> event list \<times> request" where
  "authenticate pf self env req =
     (if \<not> truthy (req_passport req)
      then ([Error (new_Error ''passport.initialize() middleware not in use'')], req)
      else
        let reqURL = url_parse pf (request_url req);
            ticket = prop_get (pu_query reqURL) ''ticket'';
            service = url_format pf (service_parts req reqURL)
        in if \<not> truthy ticket
           then ([Redirect (casBaseUrl self @ ''/login?service='' @ encodeURIComponent pf service)
                    307], req)
           else
             let r = cas_validate env ticket service
             in if truthy (val_err r)
                then (Validate ticket service # validation_failed pf env req (val_err r), req)
                else (case validation_succeeded self env req (val_username r) (val_extended r) of
                        (evs, req') \<Rightarrow> (Validate ticket service # evs, req')))"

section \<open>getProxyTicket\<close>

text \<open>Lines 296-319.\<close>

definition getProxyTicket ::
  "strategy \<Rightarrow> collaborators \<Rightarrow> request \<Rightarrow> string \<Rightarrow> event list" where
  "getProxyTicket self env req targetService =
     (let (err, pgtiou) =
        (case req_session req of
           None \<Rightarrow> (new_Error ''Session is not found'', Undefined)
         | Some session \<Rightarrow>
             if \<not> truthy (prop_get session (casSessionKey self))
             then (new_Error ''User is not authenticated with CAS'', Undefined)
             else
               let pgtiou = prop_get (props_of (prop_get session (casSessionKey self))) ''PGTIOU''
               in if \<not> truthy pgtiou
                  then (new_Error ''PGTIOU token not found. Make sure pgtURL option is correct, and the CAS server allows proxies.'', pgtiou)
                  else (Undefined, pgtiou))
      in if truthy err then [Done [err]]
         else (case cas_getProxyTicket env pgtiou targetService of
                 (err', PT) \<Rightarrow> [GetProxyTicket pgtiou targetService, Done [err', PT]]))"


section \<open>Notions used to state the properties\<close>

text \<open>
  The order in which the first loop resolves attribute names: the keys of the profile
  literal, with \<open>name\<close> replaced by its three fields.  Each resolved name is deleted from
  the attributes once its field has been handled.
\<close>

definition profile_fields :: "string list" where
  "profile_fields =
     [''provider'', ''id'', ''displayName'', ''familyName'', ''givenName'', ''middleName'',
      ''emails'']"

definition consumed :: "(string \<times> string) list \<Rightarrow> string list" where
  "consumed pm = map (mappedKey pm) profile_fields"

definition processed_before :: "string \<Rightarrow> string list" where
  "processed_before f = takeWhile (\<lambda>k. k \<noteq> f) profile_fields"

text \<open>The value a field finds under its attribute name when its turn comes.\<close>

definition attribute_seen :: "(string \<times> string) list \<Rightarrow> jsobj \<Rightarrow> string \<Rightarrow> jsval" where
  "attribute_seen pm a f =
     prop_get (fold prop_delete (map (mappedKey pm) (processed_before f)) a) (mappedKey pm f)"

text \<open>The first element of a sequence, any other value as it is.\<close>

definition first_or_self :: "jsval \<Rightarrow> jsval" where
  "first_or_self v = (if isArray v then index0 v else v)"

text \<open>The value assigned to \<open>profile.emails\<close>, given its current value and the attribute.\<close>

definition emails_value :: "jsval \<Rightarrow> jsval \<Rightarrow> jsval" where
  "emails_value cur emails =
     (if isArray emails then
        (if typeof_object (index0 emails) then emails
         else Arr (elements cur @ map email_record (elements emails)))
      else Arr [emails])"

text \<open>Scalars (strings, numbers, booleans) and structured records.\<close>

fun scalar :: "jsval \<Rightarrow> bool" where
  "scalar (Boolean b) = True"
| "scalar (Num n) = True"
| "scalar (Str s) = True"
| "scalar v = False"

fun structured :: "jsval \<Rightarrow> bool" where
  "structured (Obj ps) = True"
| "structured v = False"

text \<open>
  The request URL as the specification reads it: a path followed by \<open>?\<close> and the
  parameters \<open>k=v\<close> separated by \<open>&\<close>.
\<close>

fun render_params :: "char \<Rightarrow> (string \<times> string) list \<Rightarrow> string" where
  "render_params sep [] = []"
| "render_params sep ((k, v) # ps) = sep # k @ ''='' @ v @ render_params (CHR ''&'') ps"

definition render_url :: "string \<Rightarrow> (string \<times> string) list \<Rightarrow> string" where
  "render_url path ps = path @ render_params (CHR ''?'') ps"

text \<open>
  The retry URL in the words of the specification: every prior \<open>_cas_retry\<close> parameter is
  removed and the \<open>ticket\<close> parameter is replaced by \<open>_cas_retry=<token>\<close>.
\<close>

definition spec_retry_url :: "string \<Rightarrow> string \<Rightarrow> (string \<times> string) list \<Rightarrow> string" where
  "spec_retry_url tok path ps =
     render_url path
       (map (\<lambda>(k, v). if k = ''ticket'' then (''_cas_retry'', tok) else (k, v))
          (filter (\<lambda>(k, v). k \<noteq> ''_cas_retry'') ps))"

text \<open>
  The URLs on which the two regular expressions do what the specification says: path, names
  and values hold none of \<open>=\<close>, \<open>&\<close>, \<open>?\<close>; a name ending in \<open>_cas_retry\<close> is \<open>_cas_retry\<close>
  itself and its value a non-empty digit string; the value of \<open>ticket\<close> is a non-empty
  string of letters, digits, \<open>_\<close>, \<open>.\<close> and \<open>-\<close>; there is at most one parameter of each
  of the two names, and \<open>_cas_retry\<close> is not the last parameter.
\<close>

definition plain_char :: "char \<Rightarrow> bool" where
  "plain_char c = (c \<noteq> CHR ''='' \<and> c \<noteq> CHR ''&'' \<and> c \<noteq> CHR ''?'')"

definition param_ok :: "string \<times> string \<Rightarrow> bool" where
  "param_ok p =
     (case p of (k, v) \<Rightarrow>
        list_all plain_char k \<and> list_all plain_char v
        \<and> (suffix ''_cas_retry'' k \<longrightarrow> k = ''_cas_retry'' \<and> v \<noteq> [] \<and> list_all is_digit v)
        \<and> (k = ''ticket'' \<longrightarrow> v \<noteq> [] \<and> list_all ticket_char v))"

definition well_formed_query :: "string \<Rightarrow> (string \<times> string) list \<Rightarrow> bool" where
  "well_formed_query path ps =
     (list_all plain_char path \<and> list_all param_ok ps
      \<and> length (filter (\<lambda>(k, v). k = ''_cas_retry'') ps) \<le> 1
      \<and> length (filter (\<lambda>(k, v). k = ''ticket'') ps) \<le> 1
      \<and> (ps \<noteq> [] \<longrightarrow> fst (last ps) \<noteq> ''_cas_retry''))"

section \<open>Properties of the profile mapping\<close>

lemma map_of_prop_set: "map_of (prop_set k v obj) = (map_of obj)(k \<mapsto> v)"
  by (simp add: prop_set_def update_conv')

lemma map_of_prop_delete: "map_of (prop_delete k obj) = (map_of obj)(k := None)"
  by (simp add: prop_delete_def delete_conv')

lemma prop_get_prop_set:
  "prop_get (prop_set k v obj) k' = (if k' = k then v else prop_get obj k')"
  by (simp add: prop_get_def map_of_prop_set)

lemma prop_get_prop_delete:
  "prop_get (prop_delete k obj) k' = (if k' = k then Undefined else prop_get obj k')"
  by (simp add: prop_get_def map_of_prop_delete)

lemma snd_other_step: "snd (other_step pm key st) = prop_delete (mappedKey pm key) (snd st)"
  by (simp add: other_step_def Let_def split: prod.splits)

lemma snd_name_step: "snd (name_step pm key st) = prop_delete (mappedKey pm key) (snd st)"
  by (simp add: name_step_def Let_def split: prod.splits)

lemma snd_emails_step:
  "snd (emails_step pm st) = prop_delete (mappedKey pm ''emails'') (snd st)"
  by (simp add: emails_step_def Let_def split: prod.splits)

lemma map_of_fst_other_step:
  "map_of (fst (other_step pm key st)) k =
     (if k = key \<and> (isArray (prop_get (snd st) (mappedKey pm key))
                    \<or> truthy (prop_get (snd st) (mappedKey pm key)))
      then Some (first_or_self (prop_get (snd st) (mappedKey pm key)))
      else map_of (fst st) k)"
  by (simp add: other_step_def Let_def map_of_prop_set first_or_self_def split: prod.splits)

lemma map_of_fst_name_step:
  "map_of (fst (name_step pm sk st)) k =
     (if k = ''name''
      then Some (Obj (prop_set sk (first_or_self (prop_get (snd st) (mappedKey pm sk)))
                        (props_of (prop_get (fst st) ''name''))))
      else map_of (fst st) k)"
  by (simp add: name_step_def Let_def map_of_prop_set first_or_self_def split: prod.splits)

lemma map_of_fst_emails_step:
  "map_of (fst (emails_step pm st)) k =
     (if k = ''emails''
      then Some (emails_value (prop_get (fst st) ''emails'')
                   (prop_get (snd st) (mappedKey pm ''emails'')))
      else map_of (fst st) k)"
  by (simp add: emails_step_def Let_def map_of_prop_set emails_value_def split: prod.splits)

text \<open>The first loop, unrolled over the keys of the profile literal.\<close>

lemma map_attributes_initial:
  "map_attributes pm (initial_profile u ext, a) =
     emails_step pm (name_step pm ''middleName'' (name_step pm ''givenName''
       (name_step pm ''familyName'' (other_step pm ''displayName''
         (other_step pm ''id'' (other_step pm ''provider'' (initial_profile u ext, a)))))))"
proof -
  have k: "keys (initial_profile u ext) =
      [''provider'', ''id'', ''displayName'', ''name'', ''emails'']"
    by (simp add: initial_profile_def keys_def)
  have n: "prop_get (fst (other_step pm ''displayName''
         (other_step pm ''id'' (other_step pm ''provider'' (initial_profile u ext, a))))) ''name''
       = Obj [(''familyName'', Null), (''givenName'', Null), (''middleName'', Null)]"
    by (simp add: prop_get_def map_of_fst_other_step) (simp add: initial_profile_def)
  have kn: "keys [(''familyName'', Null), (''givenName'', Null), (''middleName'', Null)]
      = [''familyName'', ''givenName'', ''middleName'']"
    by (simp add: keys_def)
  show ?thesis
    by (simp add: map_attributes_def k profile_step_def n kn)
qed

lemma map_of_fold_set:
  "map_of (fold (\<lambda>key p. prop_set key (f key) p) ks p) k =
     (if k \<in> set ks then Some (f k) else map_of p k)"
  by (induction ks arbitrary: p) (auto simp: map_of_prop_set)

lemma map_of_copy_remaining:
  "map_of (copy_remaining (p, a)) k =
     (case map_of a k of None \<Rightarrow> map_of p k | Some v \<Rightarrow> Some v)"
proof (cases "map_of a k")
  case None
  then have "k \<notin> set (keys a)" by (simp add: keys_def map_of_eq_None_iff)
  with None show ?thesis by (simp add: copy_remaining_def map_of_fold_set)
next
  case (Some v)
  then have "k \<in> set (keys a)" using map_of_eq_None_iff [of a k] by (simp add: keys_def)
  with Some show ?thesis by (simp add: copy_remaining_def map_of_fold_set prop_get_def)
qed

lemma map_of_fold_delete:
  "map_of (fold prop_delete ks a) k = (if k \<in> set ks then None else map_of a k)"
  by (induction ks arbitrary: a) (auto simp: map_of_prop_delete)

lemma prop_get_fold_delete:
  "prop_get (fold prop_delete ks a) k = (if k \<in> set ks then Undefined else prop_get a k)"
  by (simp add: prop_get_def map_of_fold_delete)

text \<open>What the first loop leaves of the attributes.\<close>

lemma remaining_attributes:
  "snd (map_attributes pm (initial_profile u ext, a)) = fold prop_delete (consumed pm) a"
  by (simp add: map_attributes_initial snd_emails_step snd_name_step snd_other_step
      consumed_def profile_fields_def)

text \<open>A property of the final profile is the copied attribute, or else the mapped one.\<close>

lemma map_of_build_profile:
  "map_of (build_profile pm u ext) k =
     (if k \<in> set (consumed pm) \<or> map_of (ext_attributes ext) k = None
      then map_of (fst (map_attributes pm (initial_profile u ext, ext_attributes ext))) k
      else map_of (ext_attributes ext) k)"
proof -
  obtain p a where pa: "map_attributes pm (initial_profile u ext, ext_attributes ext) = (p, a)"
    by (cases "map_attributes pm (initial_profile u ext, ext_attributes ext)")
  have a: "a = fold prop_delete (consumed pm) (ext_attributes ext)"
    using remaining_attributes [of pm u ext "ext_attributes ext"] pa by simp
  show ?thesis
    by (auto simp: build_profile_def pa map_of_copy_remaining a map_of_fold_delete
        split: option.splits)
qed

lemma mapped_name:
  "map_of (fst (map_attributes pm (initial_profile u ext, a))) ''name'' =
     Some (Obj [(''familyName'', first_or_self (attribute_seen pm a ''familyName'')),
                (''givenName'', first_or_self (attribute_seen pm a ''givenName'')),
                (''middleName'', first_or_self (attribute_seen pm a ''middleName''))])"
proof -
  have n0: "map_of (initial_profile u ext) ''name'' =
      Some (Obj [(''familyName'', Null), (''givenName'', Null), (''middleName'', Null)])"
    by (simp add: initial_profile_def)
  show ?thesis
    by (simp add: map_attributes_initial map_of_fst_emails_step map_of_fst_name_step
        map_of_fst_other_step snd_name_step snd_other_step prop_get_def [of _ "''name''"]
        n0 attribute_seen_def processed_before_def profile_fields_def)
      (simp add: prop_set_def)
qed

lemma mapped_emails:
  "map_of (fst (map_attributes pm (initial_profile u ext, a))) ''emails'' =
     Some (emails_value (Arr []) (attribute_seen pm a ''emails''))"
proof -
  have e0: "map_of (initial_profile u ext) ''emails'' = Some (Arr [])"
    by (simp add: initial_profile_def)
  show ?thesis
    by (simp add: map_attributes_initial map_of_fst_emails_step map_of_fst_name_step
        map_of_fst_other_step snd_name_step snd_other_step prop_get_def [of _ "''emails''"]
        e0 attribute_seen_def processed_before_def profile_fields_def)
qed

lemma mapped_provider:
  "map_of (fst (map_attributes pm (initial_profile u ext, a))) ''provider'' =
     Some (let v = prop_get a (mappedKey pm ''provider'')
           in if isArray v \<or> truthy v then first_or_self v else Str ''CAS'')"
proof -
  have p0: "map_of (initial_profile u ext) ''provider'' = Some (Str ''CAS'')"
    by (simp add: initial_profile_def)
  show ?thesis
    by (simp add: map_attributes_initial map_of_fst_emails_step map_of_fst_name_step
        map_of_fst_other_step snd_name_step snd_other_step p0 Let_def)
qed

lemma attribute_seen_eq:
  "mappedKey pm f \<notin> set (map (mappedKey pm) (processed_before f)) \<Longrightarrow>
   attribute_seen pm a f = prop_get a (mappedKey pm f)"
  by (simp add: attribute_seen_def prop_get_fold_delete)

subsection \<open>The claims about the profile\<close>

lemma emails_value_scalars:
  "list_all scalar xs \<Longrightarrow> emails_value (Arr []) (Arr xs) = Arr (map email_record xs)"
  by (cases xs; cases "hd xs") (auto simp: emails_value_def)

lemma emails_value_structured:
  "list_all structured xs \<Longrightarrow> emails_value (Arr []) (Arr xs) = Arr xs"
  by (cases xs; cases "hd xs") (auto simp: emails_value_def)

lemma emails_value_scalar: "scalar v \<Longrightarrow> emails_value c v = Arr [v]"
  by (cases v) (auto simp: emails_value_def)

text \<open>
  Claim C3, amended.  Provided the attribute name resolved for \<open>emails\<close> is not one resolved
  (and so deleted) for a field handled earlier, and no attribute called \<open>emails\<close> is left
  over for the final copy: a sequence of scalars becomes the sequence of records
  \<open>{value: v, type: "default"}\<close> in the same order, a sequence of structured records is
  kept as it is, and a single scalar becomes the one-element sequence holding it.
\<close>

theorem emails_mapped:
  assumes "mappedKey pm ''emails'' \<notin> set (map (mappedKey pm) (processed_before ''emails''))"
      and "map_of (ext_attributes ext) ''emails'' = None \<or> ''emails'' \<in> set (consumed pm)"
  shows "(prop_get (ext_attributes ext) (mappedKey pm ''emails'') = Arr xs \<and> list_all scalar xs
            \<longrightarrow> prop_get (build_profile pm u ext) ''emails'' = Arr (map email_record xs))
       \<and> (prop_get (ext_attributes ext) (mappedKey pm ''emails'') = Arr xs
            \<and> list_all structured xs
            \<longrightarrow> prop_get (build_profile pm u ext) ''emails'' = Arr xs)
       \<and> (prop_get (ext_attributes ext) (mappedKey pm ''emails'') = v \<and> scalar v
            \<longrightarrow> prop_get (build_profile pm u ext) ''emails'' = Arr [v])"
proof -
  have "prop_get (build_profile pm u ext) ''emails'' =
      emails_value (Arr []) (prop_get (ext_attributes ext) (mappedKey pm ''emails''))"
    using assms(2) attribute_seen_eq [OF assms(1), of "ext_attributes ext"]
    by (auto simp: prop_get_def [of "build_profile pm u ext"] map_of_build_profile mapped_emails)
  then show ?thesis
    by (simp add: emails_value_scalars emails_value_structured emails_value_scalar)
qed

theorem emails_mapped_witness:
  "prop_get (build_profile [(''emails'', ''defaultmail'')] ''jane''
      \<lparr>ext_id = Undefined,
       ext_attributes = [(''defaultmail'', Arr [Str ''a@x.com'', Str ''b@x.com''])],
       ext_PGTIOU = Undefined\<rparr>) ''emails''
     = Arr [Obj [(''value'', Str ''a@x.com''), (''type'', Str ''default'')],
            Obj [(''value'', Str ''b@x.com''), (''type'', Str ''default'')]]
   \<and> prop_get (build_profile [] ''jane''
      \<lparr>ext_id = Undefined,
       ext_attributes = [(''emails'', Arr [Obj [(''value'', Str ''a@x.com''), (''type'', Str ''work'')]])],
       ext_PGTIOU = Undefined\<rparr>) ''emails''
     = Arr [Obj [(''value'', Str ''a@x.com''), (''type'', Str ''work'')]]
   \<and> prop_get (build_profile [] ''jane''
      \<lparr>ext_id = Undefined, ext_attributes = [(''emails'', Str ''a@x.com'')],
       ext_PGTIOU = Undefined\<rparr>) ''emails''
     = Arr [Str ''a@x.com'']"
proof -
  let ?pm = "[(''emails'', ''defaultmail'')]"
  let ?e1 = "\<lparr>ext_id = Undefined,
       ext_attributes = [(''defaultmail'', Arr [Str ''a@x.com'', Str ''b@x.com''])],
       ext_PGTIOU = Undefined\<rparr>"
  let ?e2 = "\<lparr>ext_id = Undefined,
       ext_attributes = [(''emails'', Arr [Obj [(''value'', Str ''a@x.com''), (''type'', Str ''work'')]])],
       ext_PGTIOU = Undefined\<rparr>"
  let ?e3 = "\<lparr>ext_id = Undefined, ext_attributes = [(''emails'', Str ''a@x.com'')],
       ext_PGTIOU = Undefined\<rparr>"
  have a1: "mappedKey ?pm ''emails'' \<notin> set (map (mappedKey ?pm) (processed_before ''emails''))"
    by (simp add: mappedKey_def processed_before_def profile_fields_def)
  have b1: "map_of (ext_attributes ?e1) ''emails'' = None \<or> ''emails'' \<in> set (consumed ?pm)"
    by simp
  have a2: "mappedKey [] ''emails'' \<notin> set (map (mappedKey []) (processed_before ''emails''))"
    by (simp add: mappedKey_def processed_before_def profile_fields_def)
  have b2: "map_of (ext_attributes e) ''emails'' = None \<or> ''emails'' \<in> set (consumed [])" for e
    by (simp add: consumed_def mappedKey_def profile_fields_def)
  have 1: "prop_get (build_profile ?pm ''jane'' ?e1) ''emails''
     = Arr [Obj [(''value'', Str ''a@x.com''), (''type'', Str ''default'')],
            Obj [(''value'', Str ''b@x.com''), (''type'', Str ''default'')]]"
    using emails_mapped [OF a1 b1, of "[Str ''a@x.com'', Str ''b@x.com'']" "''jane''"]
    by (simp add: prop_get_def mappedKey_def email_record_def)
  have 2: "prop_get (build_profile [] ''jane'' ?e2) ''emails''
     = Arr [Obj [(''value'', Str ''a@x.com''), (''type'', Str ''work'')]]"
    using emails_mapped [OF a2 b2, of ?e2
        "[Obj [(''value'', Str ''a@x.com''), (''type'', Str ''work'')]]" "''jane''"]
    by (simp add: prop_get_def mappedKey_def)
  have 3: "prop_get (build_profile [] ''jane'' ?e3) ''emails'' = Arr [Str ''a@x.com'']"
    using emails_mapped [OF a2 b2, of ?e3 _ "''jane''" "Str ''a@x.com''"]
    by (simp add: prop_get_def mappedKey_def)
  from 1 2 3 show ?thesis by simp
qed

text \<open>
  Claim C3 as stated fails: with \<open>propertyMap = {emails: "defaultmail"}\<close> and attributes that
  also hold an \<open>emails\<close> entry, the final copy puts that entry into \<open>profile.emails\<close>.
\<close>

theorem emails_mapped_counterexample:
  "prop_get (build_profile [(''emails'', ''defaultmail'')] ''jane''
      \<lparr>ext_id = Undefined,
       ext_attributes = [(''defaultmail'', Arr [Str ''a@x.com'', Str ''b@x.com'']),
                         (''emails'', Str ''jane@y.org'')],
       ext_PGTIOU = Undefined\<rparr>) ''emails'' = Str ''jane@y.org''
   \<and> prop_get (build_profile [(''emails'', ''defaultmail'')] ''jane''
      \<lparr>ext_id = Undefined,
       ext_attributes = [(''defaultmail'', Arr [Str ''a@x.com'', Str ''b@x.com'']),
                         (''emails'', Str ''jane@y.org'')],
       ext_PGTIOU = Undefined\<rparr>) ''emails''
     \<noteq> Arr (map email_record [Str ''a@x.com'', Str ''b@x.com''])"
  by code_simp

text \<open>
  The name fields.  A field whose attribute is present, has not been taken by a field
  handled earlier and is not overwritten by a leftover attribute called \<open>name\<close> is the first
  element of the attribute when it is a sequence and the attribute itself otherwise.  A
  field whose attribute is absent is left \<^verbatim>\<open>undefined\<close>.
\<close>

lemma name_field_present:
  assumes "f \<in> set [''familyName'', ''givenName'', ''middleName'']"
      and "map_of (ext_attributes ext) (mappedKey pm f) = Some v"
      and "mappedKey pm f \<notin> set (map (mappedKey pm) (processed_before f))"
      and "map_of (ext_attributes ext) ''name'' = None \<or> ''name'' \<in> set (consumed pm)"
  shows "map_of (props_of (prop_get (build_profile pm u ext) ''name'')) f
           = Some (if isArray v then index0 v else v)"
proof -
  have n: "prop_get (build_profile pm u ext) ''name'' =
      Obj [(''familyName'', first_or_self (attribute_seen pm (ext_attributes ext) ''familyName'')),
           (''givenName'', first_or_self (attribute_seen pm (ext_attributes ext) ''givenName'')),
           (''middleName'', first_or_self (attribute_seen pm (ext_attributes ext) ''middleName''))]"
    using assms(4)
    by (auto simp: prop_get_def [of "build_profile pm u ext"] map_of_build_profile mapped_name)
  have s: "attribute_seen pm (ext_attributes ext) f = v"
    using attribute_seen_eq [OF assms(3), of "ext_attributes ext"] assms(2)
    by (simp add: prop_get_def)
  from assms(1) s show ?thesis
    by (auto simp: n first_or_self_def)
qed

lemma name_field_absent:
  assumes "f \<in> set [''familyName'', ''givenName'', ''middleName'']"
      and "map_of (ext_attributes ext) (mappedKey pm f) = None"
      and "map_of (ext_attributes ext) ''name'' = None \<or> ''name'' \<in> set (consumed pm)"
  shows "map_of (props_of (prop_get (build_profile pm u ext) ''name'')) f = Some Undefined"
proof -
  have n: "prop_get (build_profile pm u ext) ''name'' =
      Obj [(''familyName'', first_or_self (attribute_seen pm (ext_attributes ext) ''familyName'')),
           (''givenName'', first_or_self (attribute_seen pm (ext_attributes ext) ''givenName'')),
           (''middleName'', first_or_self (attribute_seen pm (ext_attributes ext) ''middleName''))]"
    using assms(3)
    by (auto simp: prop_get_def [of "build_profile pm u ext"] map_of_build_profile mapped_name)
  have "map_of (fold prop_delete ks (ext_attributes ext)) (mappedKey pm f) = None" for ks
    using assms(2) by (simp add: map_of_fold_delete)
  then have s: "attribute_seen pm (ext_attributes ext) f = Undefined"
    unfolding attribute_seen_def prop_get_def by simp
  have u: "first_or_self (attribute_seen pm (ext_attributes ext) f) = Undefined"
    by (simp add: s first_or_self_def)
  from assms(1) consider "f = ''familyName''" | "f = ''givenName''" | "f = ''middleName''"
    by auto
  then show ?thesis
  proof cases
    case 1
    with u show ?thesis by (simp add: n)
  next
    case 2
    with u show ?thesis by (simp add: n)
  next
    case 3
    with u show ?thesis by (simp add: n)
  qed
qed

text \<open>
  Claim C4.  The claim fails on the code at its own example: with attributes
  \<open>{surname: "Doe", givenname: "Jane"}\<close> and the property map
  \<open>{familyName: "surname", givenName: "givenname"}\<close> the absent \<open>middleName\<close> comes out
  \<^verbatim>\<open>undefined\<close>, where the claim and the literal of lines 184-188 have \<^verbatim>\<open>null\<close>: line 201
  assigns the looked-up value unconditionally, unlike the guarded assignment of line 233.
\<close>

theorem name_field_absent_example:
  "prop_get (build_profile [(''familyName'', ''surname''), (''givenName'', ''givenname'')] ''jane''
      \<lparr>ext_id = Undefined,
       ext_attributes = [(''surname'', Str ''Doe''), (''givenname'', Str ''Jane'')],
       ext_PGTIOU = Undefined\<rparr>) ''name''
   = Obj [(''familyName'', Str ''Doe''), (''givenName'', Str ''Jane''),
          (''middleName'', Undefined)]"
  by code_simp

text \<open>
  Claim C5, amended.  The loop leaves \<open>profile.name\<close> an object with exactly the fields
  \<open>familyName\<close>, \<open>givenName\<close>, \<open>middleName\<close> and \<open>profile.emails\<close> an array.  The final copy
  of the remaining attributes overwrites them when an attribute called \<open>name\<close> or \<open>emails\<close>
  is left over, so the shape holds for the final profile provided no such attribute is left:
  the attribute is absent, or its name is one the loop resolves.
\<close>

theorem profile_shape:
  assumes "map_of (ext_attributes ext) ''name'' = None \<or> ''name'' \<in> set (consumed pm)"
      and "map_of (ext_attributes ext) ''emails'' = None \<or> ''emails'' \<in> set (consumed pm)"
  shows "keys (props_of (prop_get (build_profile pm u ext) ''name''))
           = [''familyName'', ''givenName'', ''middleName'']
         \<and> isArray (prop_get (build_profile pm u ext) ''emails'')"
proof -
  have n: "keys (props_of (prop_get (build_profile pm u ext) ''name''))
           = [''familyName'', ''givenName'', ''middleName'']"
    using assms(1) by (auto simp: prop_get_def map_of_build_profile mapped_name keys_def)
  have "isArray (emails_value c e)" for c e
    by (simp add: emails_value_def)
  then have e: "isArray (prop_get (build_profile pm u ext) ''emails'')"
    using assms(2) by (auto simp: prop_get_def map_of_build_profile mapped_emails)
  from n e show ?thesis by simp
qed

theorem profile_shape_witness:
  "keys (props_of (prop_get (build_profile [] ''jane''
      \<lparr>ext_id = Undefined, ext_attributes = [(''department'', Str ''Physics'')],
       ext_PGTIOU = Undefined\<rparr>) ''name''))
     = [''familyName'', ''givenName'', ''middleName'']
   \<and> isArray (prop_get (build_profile [] ''jane''
      \<lparr>ext_id = Undefined, ext_attributes = [(''department'', Str ''Physics'')],
       ext_PGTIOU = Undefined\<rparr>) ''emails'')"
proof -
  let ?ext = "\<lparr>ext_id = Undefined, ext_attributes = [(''department'', Str ''Physics'')],
       ext_PGTIOU = Undefined\<rparr>"
  have 1: "map_of (ext_attributes ?ext) ''name'' = None \<or> ''name'' \<in> set (consumed [])"
    by simp
  have 2: "map_of (ext_attributes ?ext) ''emails'' = None \<or> ''emails'' \<in> set (consumed [])"
    by simp
  from profile_shape [OF 1 2] show ?thesis .
qed

text \<open>
  Claim C5 as stated fails: with no property map and an attribute \<open>name\<close>, the final
  \<open>profile.name\<close> is that attribute, a string, and no record.
\<close>

theorem profile_shape_counterexample:
  "prop_get (build_profile [] ''jane''
      \<lparr>ext_id = Undefined, ext_attributes = [(''name'', Str ''Jane Doe'')],
       ext_PGTIOU = Undefined\<rparr>) ''name'' = Str ''Jane Doe''
   \<and> keys (props_of (prop_get (build_profile [] ''jane''
      \<lparr>ext_id = Undefined, ext_attributes = [(''name'', Str ''Jane Doe'')],
       ext_PGTIOU = Undefined\<rparr>) ''name''))
     \<noteq> [''familyName'', ''givenName'', ''middleName'']"
  by code_simp

text \<open>
  Claim C6.  The final profile is the mapped profile with the attributes left by the first
  loop assigned onto it: a property of the final profile is the remaining attribute of that
  name when there is one, and the property of the mapped profile otherwise.  An attribute
  whose name is none of the names the loop resolves (by the property map, or by the profile
  field itself) does remain, so it is on the final profile under its own name, with its
  value unchanged.
\<close>

theorem remaining_attributes_copied:
  "map_of (build_profile pm u ext) k =
     (case map_of (snd (map_attributes pm (initial_profile u ext, ext_attributes ext))) k of
        None \<Rightarrow> map_of (fst (map_attributes pm (initial_profile u ext, ext_attributes ext))) k
      | Some v \<Rightarrow> Some v)
   \<and> (map_of (ext_attributes ext) k = Some v \<and> k \<notin> set (consumed pm)
      \<longrightarrow> map_of (snd (map_attributes pm (initial_profile u ext, ext_attributes ext))) k = Some v
          \<and> map_of (build_profile pm u ext) k = Some v)"
proof -
  have 1: "map_of (build_profile pm u ext) k =
     (case map_of (snd (map_attributes pm (initial_profile u ext, ext_attributes ext))) k of
        None \<Rightarrow> map_of (fst (map_attributes pm (initial_profile u ext, ext_attributes ext))) k
      | Some v \<Rightarrow> Some v)"
  proof -
    obtain p a where pa: "map_attributes pm (initial_profile u ext, ext_attributes ext) = (p, a)"
      by (cases "map_attributes pm (initial_profile u ext, ext_attributes ext)")
    show ?thesis
      by (simp add: build_profile_def pa map_of_copy_remaining split: option.splits)
  qed
  show ?thesis
    unfolding 1 by (simp add: remaining_attributes map_of_fold_delete)
qed

theorem remaining_attributes_copied_witness:
  "map_of (build_profile [(''emails'', ''defaultmail'')] ''jane''
     \<lparr>ext_id = Undefined,
      ext_attributes = [(''defaultmail'', Arr [Str ''a@x.com'']), (''department'', Str ''Physics'')],
      ext_PGTIOU = Undefined\<rparr>) ''department'' = Some (Str ''Physics'')
   \<and> map_of (build_profile [(''emails'', ''defaultmail'')] ''jane''
     \<lparr>ext_id = Undefined,
      ext_attributes = [(''defaultmail'', Arr [Str ''a@x.com'']), (''department'', Str ''Physics'')],
      ext_PGTIOU = Undefined\<rparr>) ''emails''
     = Some (Arr [Obj [(''value'', Str ''a@x.com''), (''type'', Str ''default'')]])
   \<and> map_of (build_profile [(''emails'', ''defaultmail'')] ''jane''
     \<lparr>ext_id = Undefined,
      ext_attributes = [(''defaultmail'', Arr [Str ''a@x.com'']), (''department'', Str ''Physics'')],
      ext_PGTIOU = Undefined\<rparr>) ''defaultmail'' = None"
proof -
  let ?pm = "[(''emails'', ''defaultmail'')]"
  let ?ext = "\<lparr>ext_id = Undefined,
      ext_attributes = [(''defaultmail'', Arr [Str ''a@x.com'']), (''department'', Str ''Physics'')],
      ext_PGTIOU = Undefined\<rparr>"
  let ?st = "map_attributes ?pm (initial_profile ''jane'' ?ext, ext_attributes ?ext)"
  have 1: "map_of (ext_attributes ?ext) ''department'' = Some (Str ''Physics'')" by simp
  have 2: "''department'' \<notin> set (consumed ?pm)"
    by (simp add: consumed_def profile_fields_def mappedKey_def)
  from 1 2 remaining_attributes_copied [of ?pm "''jane''" ?ext "''department''" "Str ''Physics''"]
  have d: "map_of (build_profile ?pm ''jane'' ?ext) ''department'' = Some (Str ''Physics'')"
    by blast
  have r: "map_of (snd ?st) k = (if k = ''department'' then Some (Str ''Physics'') else None)"
    for k
    unfolding remaining_attributes map_of_fold_delete
    by (simp add: consumed_def profile_fields_def mappedKey_def)
  have m: "map_of (fst ?st) ''emails''
      = Some (Arr [Obj [(''value'', Str ''a@x.com''), (''type'', Str ''default'')]])"
    by (simp add: mapped_emails attribute_seen_def processed_before_def profile_fields_def
        mappedKey_def prop_get_def emails_value_def email_record_def prop_delete_def)
  have m2: "map_of (fst ?st) ''defaultmail'' = None"
    by (simp add: map_attributes_initial map_of_fst_emails_step map_of_fst_name_step
        map_of_fst_other_step) (simp add: initial_profile_def)
  from remaining_attributes_copied [THEN conjunct1, of ?pm "''jane''" ?ext "''emails''"]
    r [of "''emails''"] m
  have e: "map_of (build_profile ?pm ''jane'' ?ext) ''emails''
      = Some (Arr [Obj [(''value'', Str ''a@x.com''), (''type'', Str ''default'')]])"
    by simp
  from remaining_attributes_copied [THEN conjunct1, of ?pm "''jane''" ?ext "''defaultmail''"]
    r [of "''defaultmail''"] m2
  have c: "map_of (build_profile ?pm ''jane'' ?ext) ''defaultmail'' = None"
    by (simp only: option.case if_False list.inject char.inject refl simp_thms)
  from d e c show ?thesis by blast
qed

text \<open>
  Claim C10, amended.  When the attributes hold a truthy value under the name resolved for
  \<open>provider\<close>, and no attribute called \<open>provider\<close> is left over for the final copy (always so
  with the default name), the profile's \<open>provider\<close> is that value, or its first element
  when it is a sequence, in place of the constant \<open>CAS\<close>.
\<close>

theorem provider_from_attribute:
  assumes "truthy (prop_get (ext_attributes ext) (mappedKey pm ''provider''))"
      and "map_of (ext_attributes ext) ''provider'' = None \<or> ''provider'' \<in> set (consumed pm)"
  shows "prop_get (build_profile pm u ext) ''provider''
           = (if isArray (prop_get (ext_attributes ext) (mappedKey pm ''provider''))
              then index0 (prop_get (ext_attributes ext) (mappedKey pm ''provider''))
              else prop_get (ext_attributes ext) (mappedKey pm ''provider''))"
  using assms
  by (auto simp: prop_get_def [of "build_profile pm u ext"] map_of_build_profile mapped_provider
      first_or_self_def Let_def)

theorem provider_from_attribute_witness:
  "prop_get (build_profile [] ''jane''
      \<lparr>ext_id = Undefined, ext_attributes = [(''provider'', Str ''ldap'')],
       ext_PGTIOU = Undefined\<rparr>) ''provider'' = Str ''ldap''"
proof -
  let ?ext = "\<lparr>ext_id = Undefined, ext_attributes = [(''provider'', Str ''ldap'')],
       ext_PGTIOU = Undefined\<rparr>"
  have 1: "truthy (prop_get (ext_attributes ?ext) (mappedKey [] ''provider''))"
    by (simp add: prop_get_def mappedKey_def)
  have 2: "map_of (ext_attributes ?ext) ''provider'' = None \<or> ''provider'' \<in> set (consumed [])"
    by (simp add: consumed_def mappedKey_def profile_fields_def)
  from provider_from_attribute [OF 1 2, of "''jane''"] show ?thesis
    by (simp add: prop_get_def mappedKey_def)
qed

text \<open>
  Claim C10 as stated fails when the property map renames \<open>provider\<close> and the attributes
  also hold a \<open>provider\<close> entry: the final copy overwrites the mapped value.
\<close>

theorem provider_from_attribute_counterexample:
  "prop_get (build_profile [(''provider'', ''idp'')] ''jane''
      \<lparr>ext_id = Undefined,
       ext_attributes = [(''idp'', Str ''ldap''), (''provider'', Str ''campus'')],
       ext_PGTIOU = Undefined\<rparr>) ''provider'' = Str ''campus''
   \<and> prop_get (ext_attributes
      \<lparr>ext_id = Undefined,
       ext_attributes = [(''idp'', Str ''ldap''), (''provider'', Str ''campus'')],
       ext_PGTIOU = Undefined\<rparr>) (mappedKey [(''provider'', ''idp'')] ''provider'') = Str ''ldap''"
  by code_simp

section \<open>Properties of the retry URL\<close>

text \<open>
  The two replacements of lines 154-156 against the specification's reading of the retry
  URL.  A match of either expression lies inside one parameter, since it holds an \<open>=\<close>
  and neither \<open>&\<close> nor \<open>?\<close> after its first character; so the replacements can be
  followed parameter by parameter.
\<close>

lemma takeWhile_plain:
  assumes "list_all plain_char a" and "s = [] \<or> \<not> plain_char (hd s)"
  shows "takeWhile plain_char (a @ s) = a" and "dropWhile plain_char (a @ s) = s"
proof -
  have t: "takeWhile plain_char s = []" and d: "dropWhile plain_char s = s"
    using assms(2) by (cases s; simp)+
  from assms(1) have a: "\<And>x. x \<in> set a \<Longrightarrow> plain_char x" by (simp add: list_all_iff)
  show "takeWhile plain_char (a @ s) = a" using a t by (simp add: takeWhile_append2)
  show "dropWhile plain_char (a @ s) = s" using a d by (simp add: dropWhile_append2)
qed

lemma retry_match_shape: "retry_match s = Some r \<Longrightarrow> \<exists>t. s = ''_cas_retry='' @ t"
  by (auto simp: retry_match_def prefix_def split: if_splits)

lemma retry_match_none_sep:
  assumes "list_all plain_char a" and "s = [] \<or> hd s = CHR ''?'' \<or> hd s = CHR ''&''"
  shows "retry_match (a @ s) = None"
proof (cases "retry_match (a @ s)")
  case (Some r)
  then obtain t where e: "a @ s = ''_cas_retry='' @ t" using retry_match_shape by blast
  have np: "s = [] \<or> \<not> plain_char (hd s)" using assms(2) by (auto simp: plain_char_def)
  have "dropWhile plain_char (a @ s) = s" by (rule takeWhile_plain(2) [OF assms(1) np])
  moreover have "dropWhile plain_char (''_cas_retry='' @ t) = CHR ''='' # t"
    by (simp add: plain_char_def)
  ultimately have "s = CHR ''='' # t" using e by simp
  with assms(2) show ?thesis by simp
qed simp

lemma retry_match_none_name:
  assumes "list_all plain_char k" and "k \<noteq> ''_cas_retry''"
  shows "retry_match (k @ CHR ''='' # s) = None"
proof (cases "retry_match (k @ CHR ''='' # s)")
  case (Some r)
  then obtain t where e: "k @ CHR ''='' # s = ''_cas_retry='' @ t"
    using retry_match_shape by blast
  have "takeWhile plain_char (k @ CHR ''='' # s) = k"
    by (rule takeWhile_plain(1) [OF assms(1)]) (simp add: plain_char_def)
  moreover have "takeWhile plain_char (''_cas_retry='' @ t) = ''_cas_retry''"
    by (simp add: plain_char_def)
  ultimately have "k = ''_cas_retry''" using e by simp
  with assms(2) show ?thesis by simp
qed simp

lemma strip_retry_plain:
  assumes "list_all plain_char a" and "s = [] \<or> hd s = CHR ''?'' \<or> hd s = CHR ''&''"
  shows "strip_retry (a @ s) = a @ strip_retry s"
  using assms(1)
proof (induction a)
  case Nil
  show ?case by simp
next
  case (Cons x a)
  have "retry_match ((x # a) @ s) = None"
    by (rule retry_match_none_sep [OF Cons.prems assms(2)])
  with Cons show ?case by simp
qed

lemma strip_retry_sep:
  "c = CHR ''?'' \<or> c = CHR ''&'' \<Longrightarrow> strip_retry (c # s) = c # strip_retry s"
  by (auto simp: retry_match_def)

lemma strip_retry_name:
  assumes "list_all plain_char k" and "\<not> suffix ''_cas_retry'' k"
  shows "strip_retry (k @ CHR ''='' # s) = k @ CHR ''='' # strip_retry s"
  using assms
proof (induction k)
  case Nil
  show ?case by (simp add: retry_match_def)
next
  case (Cons x k)
  have ne: "x # k \<noteq> ''_cas_retry''" using Cons.prems(2) by auto
  have "retry_match ((x # k) @ CHR ''='' # s) = None"
    by (rule retry_match_none_name [OF Cons.prems(1) ne])
  moreover have "\<not> suffix ''_cas_retry'' k"
    using Cons.prems(2) by (meson suffix_ConsI)
  ultimately show ?case using Cons by simp
qed

lemma strip_retry_hit:
  assumes "d \<noteq> []" and "list_all is_digit d"
  shows "strip_retry (''_cas_retry='' @ d @ CHR ''&'' # s) = s"
proof -
  have nd: "\<not> is_digit CHR ''&''" by (simp add: is_digit_def)
  have a: "\<forall>x\<in>set d. is_digit x" using assms(2) by (simp add: list_all_iff)
  have t: "takeWhile is_digit (d @ CHR ''&'' # s) = d"
    using a nd by (simp add: takeWhile_tail)
  have dw: "dropWhile is_digit (d @ CHR ''&'' # s) = CHR ''&'' # s"
    using a nd by (simp add: dropWhile_append3)
  show ?thesis using assms(1) t dw by (simp add: retry_match_def)
qed

lemma render_params_head:
  "render_params sep ps = [] \<or> hd (render_params sep ps) = sep"
  by (cases ps) auto

lemma filter_none_left:
  "length (filter P xs) = 0 \<Longrightarrow> filter (\<lambda>x. \<not> P x) xs = xs"
  by (induction xs) (auto split: if_splits)

lemma strip_retry_params:
  assumes "sep = CHR ''?'' \<or> sep = CHR ''&''"
      and "list_all param_ok ps"
      and "length (filter (\<lambda>(k, v). k = ''_cas_retry'') ps) \<le> 1"
      and "ps \<noteq> [] \<longrightarrow> fst (last ps) \<noteq> ''_cas_retry''"
  shows "strip_retry (render_params sep ps) =
           render_params sep (filter (\<lambda>(k, v). k \<noteq> ''_cas_retry'') ps)"
  using assms
proof (induction ps arbitrary: sep)
  case Nil
  show ?case by simp
next
  case (Cons p rest)
  obtain k v where p: "p = (k, v)" by (cases p)
  have ok: "list_all plain_char k" "list_all plain_char v"
    "suffix ''_cas_retry'' k \<longrightarrow> k = ''_cas_retry'' \<and> v \<noteq> [] \<and> list_all is_digit v"
    using Cons.prems(2) by (simp_all add: p param_ok_def)
  show ?case
  proof (cases "k = ''_cas_retry''")
    case True
    then have dv: "v \<noteq> []" "list_all is_digit v" using ok(3) by simp_all
    from True Cons.prems(4) have ne: "rest \<noteq> []" by (auto simp: p)
    then obtain k' v' rest' where r: "rest = (k', v') # rest'"
      by (cases rest) auto
    from True Cons.prems(3) have "length (filter (\<lambda>(k, v). k = ''_cas_retry'') rest) = 0"
      by (simp add: p)
    then have "filter (\<lambda>x. \<not> (case x of (k, v) \<Rightarrow> k = ''_cas_retry'')) rest = rest"
      by (rule filter_none_left)
    then have f: "filter (\<lambda>(k, v). k \<noteq> ''_cas_retry'') rest = rest"
      by (simp add: case_prod_unfold)
    have "strip_retry (render_params sep (p # rest)) =
        sep # strip_retry (''_cas_retry='' @ v @ CHR ''&'' # (k' @ ''='' @ v' @ render_params (CHR ''&'') rest'))"
      using Cons.prems(1) True by (simp add: p r strip_retry_sep del: strip_retry.simps)
    also have "\<dots> = sep # k' @ ''='' @ v' @ render_params (CHR ''&'') rest'"
      by (simp only: strip_retry_hit [OF dv])
    finally show ?thesis using True f by (simp add: p r)
  next
    case False
    then have ns: "\<not> suffix ''_cas_retry'' k" using ok(3) by blast
    have h: "render_params (CHR ''&'') rest = []
        \<or> hd (render_params (CHR ''&'') rest) = CHR ''?''
        \<or> hd (render_params (CHR ''&'') rest) = CHR ''&''"
      using render_params_head [of "CHR ''&''" rest] by blast
    have ih: "strip_retry (render_params (CHR ''&'') rest) =
        render_params (CHR ''&'') (filter (\<lambda>(k, v). k \<noteq> ''_cas_retry'') rest)"
    proof (rule Cons.IH)
      show "CHR ''&'' = CHR ''?'' \<or> CHR ''&'' = CHR ''&''" by simp
      show "list_all param_ok rest" using Cons.prems(2) by simp
      show "length (filter (\<lambda>(k, v). k = ''_cas_retry'') rest) \<le> 1"
        using Cons.prems(3) by (simp add: p split: if_splits)
      show "rest \<noteq> [] \<longrightarrow> fst (last rest) \<noteq> ''_cas_retry''"
        using Cons.prems(4) by auto
    qed
    have "strip_retry (render_params sep (p # rest)) =
        sep # strip_retry (k @ CHR ''='' # (v @ render_params (CHR ''&'') rest))"
      using Cons.prems(1) by (simp add: p strip_retry_sep del: strip_retry.simps)
    also have "\<dots> = sep # k @ CHR ''='' # strip_retry (v @ render_params (CHR ''&'') rest)"
      by (simp only: strip_retry_name [OF ok(1) ns])
    also have "\<dots> = sep # k @ CHR ''='' # v @ strip_retry (render_params (CHR ''&'') rest)"
      by (simp only: strip_retry_plain [OF ok(2) h])
    finally show ?thesis using False ih by (simp add: p)
  qed
qed

lemma ticket_match_shape:
  "ticket_match s = Some (c, r) \<Longrightarrow>
     (c = CHR ''?'' \<or> c = CHR ''&'') \<and> (\<exists>t. s = c # ''ticket='' @ t)"
  by (auto simp: ticket_match_def prefix_def split: list.splits if_splits)

lemma swap_ticket_skip:
  "c \<noteq> CHR ''?'' \<Longrightarrow> c \<noteq> CHR ''&'' \<Longrightarrow> swap_ticket tok (c # s) = c # swap_ticket tok s"
  by (simp add: ticket_match_def)

lemma swap_ticket_plain:
  "list_all plain_char a \<Longrightarrow> swap_ticket tok (a @ s) = a @ swap_ticket tok s"
proof (induction a)
  case Nil
  show ?case by simp
next
  case (Cons x a)
  then have "x \<noteq> CHR ''?''" "x \<noteq> CHR ''&''" by (simp_all add: plain_char_def)
  then have "swap_ticket tok (x # (a @ s)) = x # swap_ticket tok (a @ s)"
    by (rule swap_ticket_skip)
  with Cons show ?case by simp
qed

lemma ticket_match_none_name:
  assumes "list_all plain_char k" and "k \<noteq> ''ticket''"
  shows "ticket_match (sep # k @ CHR ''='' # s) = None"
proof (cases "ticket_match (sep # k @ CHR ''='' # s)")
  case (Some cr)
  obtain c r where cr: "cr = (c, r)" by (cases cr)
  from Some obtain t where e: "sep # k @ CHR ''='' # s = c # ''ticket='' @ t"
    using ticket_match_shape [of "sep # k @ CHR ''='' # s" c r] by (auto simp: cr)
  have "takeWhile plain_char (k @ CHR ''='' # s) = k"
    by (rule takeWhile_plain(1) [OF assms(1)]) (simp add: plain_char_def)
  moreover have "takeWhile plain_char (''ticket='' @ t) = ''ticket''"
    by (simp add: plain_char_def)
  ultimately have "k = ''ticket''" using e by simp
  with assms(2) show ?thesis by simp
qed simp

lemma swap_ticket_name:
  assumes "list_all plain_char k" and "k \<noteq> ''ticket''" and "list_all plain_char v"
  shows "swap_ticket tok (sep # k @ CHR ''='' # v @ s) = sep # k @ CHR ''='' # v @ swap_ticket tok s"
proof -
  have "swap_ticket tok (sep # k @ CHR ''='' # v @ s) =
      sep # swap_ticket tok (k @ CHR ''='' # v @ s)"
    using ticket_match_none_name [OF assms(1,2), of sep "v @ s"] by simp
  also have "\<dots> = sep # k @ swap_ticket tok (CHR ''='' # v @ s)"
    by (simp only: swap_ticket_plain [OF assms(1)])
  also have "\<dots> = sep # k @ CHR ''='' # swap_ticket tok (v @ s)"
    by (simp add: swap_ticket_skip del: swap_ticket.simps)
  also have "\<dots> = sep # k @ CHR ''='' # v @ swap_ticket tok s"
    by (simp only: swap_ticket_plain [OF assms(3)])
  finally show ?thesis .
qed

lemma swap_ticket_hit:
  assumes "sep = CHR ''?'' \<or> sep = CHR ''&''"
      and "t \<noteq> []" and "list_all ticket_char t"
      and "s = [] \<or> hd s = CHR ''&''"
  shows "swap_ticket tok (sep # ''ticket='' @ t @ s) = sep # ''_cas_retry='' @ tok @ s"
proof -
  have nt: "\<not> ticket_char CHR ''&''" by (simp add: ticket_char_def)
  have a: "\<And>x. x \<in> set t \<Longrightarrow> ticket_char x" using assms(3) by (simp add: list_all_iff)
  have s: "takeWhile ticket_char s = []" "dropWhile ticket_char s = s"
    using assms(4) nt by (cases s; auto)+
  have tw: "takeWhile ticket_char (t @ s) = t" using a s by (simp add: takeWhile_append2)
  have dw: "dropWhile ticket_char (t @ s) = s" using a s by (simp add: dropWhile_append2)
  show ?thesis using assms(1,2) tw dw by (auto simp: ticket_match_def)
qed

lemma swap_ticket_params:
  assumes "sep = CHR ''?'' \<or> sep = CHR ''&''"
      and "list_all param_ok ps"
      and "length (filter (\<lambda>(k, v). k = ''ticket'') ps) \<le> 1"
  shows "swap_ticket tok (render_params sep ps) =
           render_params sep
             (map (\<lambda>(k, v). if k = ''ticket'' then (''_cas_retry'', tok) else (k, v)) ps)"
  using assms
proof (induction ps arbitrary: sep)
  case Nil
  show ?case by simp
next
  case (Cons p rest)
  obtain k v where p: "p = (k, v)" by (cases p)
  have ok: "list_all plain_char k" "list_all plain_char v"
    "k = ''ticket'' \<longrightarrow> v \<noteq> [] \<and> list_all ticket_char v"
    using Cons.prems(2) by (simp_all add: p param_ok_def)
  show ?case
  proof (cases "k = ''ticket''")
    case True
    then have tv: "v \<noteq> []" "list_all ticket_char v" using ok(3) by simp_all
    from True Cons.prems(3) have "length (filter (\<lambda>(k, v). k = ''ticket'') rest) = 0"
      by (simp add: p)
    then have "\<forall>x\<in>set rest. \<not> (case x of (k, v) \<Rightarrow> k = ''ticket'')"
      by (simp add: filter_empty_conv)
    then have m: "map (\<lambda>(k, v). if k = ''ticket'' then (''_cas_retry'', tok) else (k, v)) rest
        = rest"
      by (induction rest) auto
    have h: "render_params (CHR ''&'') rest = [] \<or> hd (render_params (CHR ''&'') rest) = CHR ''&''"
      by (rule render_params_head)
    have "swap_ticket tok (sep # ''ticket='' @ v @ render_params (CHR ''&'') rest) =
        sep # ''_cas_retry='' @ tok @ render_params (CHR ''&'') rest"
      by (rule swap_ticket_hit [OF Cons.prems(1) tv h])
    then show ?thesis using True m by (simp add: p del: swap_ticket.simps)
  next
    case False
    have ih: "swap_ticket tok (render_params (CHR ''&'') rest) =
        render_params (CHR ''&'')
          (map (\<lambda>(k, v). if k = ''ticket'' then (''_cas_retry'', tok) else (k, v)) rest)"
    proof (rule Cons.IH)
      show "CHR ''&'' = CHR ''?'' \<or> CHR ''&'' = CHR ''&''" by simp
      show "list_all param_ok rest" using Cons.prems(2) by simp
      show "length (filter (\<lambda>(k, v). k = ''ticket'') rest) \<le> 1"
        using Cons.prems(3) by (simp add: p split: if_splits)
    qed
    have "swap_ticket tok (sep # k @ CHR ''='' # v @ render_params (CHR ''&'') rest) =
        sep # k @ CHR ''='' # v @ swap_ticket tok (render_params (CHR ''&'') rest)"
      by (rule swap_ticket_name [OF ok(1) False ok(2)])
    then show ?thesis using False ih by (simp add: p del: swap_ticket.simps)
  qed
qed

lemma retry_url_well_formed:
  assumes "well_formed_query path ps"
  shows "retry_url token (render_url path ps) = spec_retry_url (dec_int token) path ps"
proof -
  let ?ps' = "filter (\<lambda>(k, v). k \<noteq> ''_cas_retry'') ps"
  have pp: "list_all plain_char path" and ok: "list_all param_ok ps"
    and c1: "length (filter (\<lambda>(k, v). k = ''_cas_retry'') ps) \<le> 1"
    and c2: "length (filter (\<lambda>(k, v). k = ''ticket'') ps) \<le> 1"
    and l: "ps \<noteq> [] \<longrightarrow> fst (last ps) \<noteq> ''_cas_retry''"
    using assms by (simp_all add: well_formed_query_def)
  have q: "CHR ''?'' = CHR ''?'' \<or> CHR ''?'' = CHR ''&''" by simp
  have h: "render_params (CHR ''?'') ps = [] \<or> hd (render_params (CHR ''?'') ps) = CHR ''?''
      \<or> hd (render_params (CHR ''?'') ps) = CHR ''&''"
    using render_params_head [of "CHR ''?''" ps] by blast
  have "strip_retry (render_url path ps) = path @ strip_retry (render_params (CHR ''?'') ps)"
    unfolding render_url_def by (rule strip_retry_plain [OF pp h])
  also have "\<dots> = path @ render_params (CHR ''?'') ?ps'"
    by (simp only: strip_retry_params [OF q ok c1 l])
  finally have 1: "strip_retry (render_url path ps) = path @ render_params (CHR ''?'') ?ps'" .
  have ok': "list_all param_ok ?ps'" using ok by (simp add: list_all_iff)
  have "length (filter (\<lambda>(k, v). k = ''ticket'') ?ps')
      \<le> length (filter (\<lambda>(k, v). k = ''ticket'') ps)"
    by (induction ps) auto
  with c2 have c2': "length (filter (\<lambda>(k, v). k = ''ticket'') ?ps') \<le> 1" by simp
  have "swap_ticket (dec_int token) (path @ render_params (CHR ''?'') ?ps') =
      path @ swap_ticket (dec_int token) (render_params (CHR ''?'') ?ps')"
    by (rule swap_ticket_plain [OF pp])
  also have "\<dots> = path @ render_params (CHR ''?'')
      (map (\<lambda>(k, v). if k = ''ticket'' then (''_cas_retry'', dec_int token) else (k, v)) ?ps')"
    by (simp only: swap_ticket_params [OF q ok' c2'])
  finally show ?thesis
    by (simp add: retry_url_def 1 [unfolded render_url_def] spec_retry_url_def render_url_def)
qed

section \<open>Properties of authenticate\<close>


lemma prop_delete_absent: "map_of obj k = None \<Longrightarrow> prop_delete k obj = obj"
  by (simp add: prop_delete_def map_of_eq_None_iff delete_id)


lemma prop_delete_prop_set: "prop_delete k (prop_set k v obj) = prop_delete k obj"
  by (simp add: prop_delete_def prop_set_def delete_update_same)


lemma authenticate_success:
  assumes "truthy (req_passport req)"
      and "ticket = prop_get (pu_query (url_parse pf (request_url req))) ''ticket''"
      and "truthy ticket"
      and "r = cas_validate env ticket (service_url pf req)"
      and "\<not> truthy (val_err r)"
  shows "authenticate pf self env req =
     (Validate ticket (service_url pf req)
        # fst (validation_succeeded self env req (val_username r) (val_extended r)),
      snd (validation_succeeded self env req (val_username r) (val_extended r)))"
  using assms by (simp add: authenticate_def Let_def service_url_def split: prod.splits)

text \<open>
  Claim C1, amended.  On a request that carries \<^verbatim>\<open>req._passport\<close> and whose \<open>ticket\<close> query
  parameter is absent (or otherwise falsy), \<open>authenticate\<close> does one thing only: a 307
  redirect to the CAS base URL followed by \<^verbatim>\<open>/login?service=\<close> and the URL-encoded service
  URL.  The service URL is formatted from the protocol, host and path chosen by the header
  precedence and from the query of the request without its ticket.  The trace holds no
  validation and no call of the verify callback, and the request is left as it was.
\<close>

theorem no_ticket_redirects_to_login:
  assumes "truthy (req_passport req)"
      and "\<not> truthy (prop_get (pu_query (url_parse pf (request_url req))) ''ticket'')"
  shows "authenticate pf self env req =
     ([Redirect (casBaseUrl self @ ''/login?service='' @ encodeURIComponent pf (url_format pf
          \<lparr>up_protocol = js_or (js_or (js_or (header req ''x-forwarded-proto'')
                                             (header req ''x-proxied-protocol''))
                                      (opt_str (req_protocol req)))
                               (Str ''http''),
           up_host = js_or (js_or (header req ''x-forwarded-host'') (header req ''host''))
                           (pu_host (url_parse pf (request_url req))),
           up_pathname = js_or (header req ''x-proxied-request-uri'')
                               (pu_pathname (url_parse pf (request_url req))),
           up_query = prop_delete ''ticket'' (pu_query (url_parse pf (request_url req)))\<rparr>))
        307], req)"
  using assms by (simp add: authenticate_def Let_def service_parts_def)

theorem no_ticket_redirects_to_login_witness:
  "authenticate
     \<lparr>url_parse = (\<lambda>u. \<lparr>pu_host = Null, pu_pathname = Str ''/app'', pu_query = [(''x'', Str ''1'')]\<rparr>),
      url_format = (\<lambda>p. case (up_protocol p, up_host p, up_pathname p) of
                           (Str a, Str b, Str c) \<Rightarrow> a @ ''://'' @ b @ c | _ \<Rightarrow> []),
      encodeURIComponent = (\<lambda>s. s), to_number = (\<lambda>v. None)\<rparr>
     \<lparr>casBaseUrl = ''https://cas.example.com'', casPgtUrl = Undefined, casPropertyMap = [],
      casSessionKey = ''cas'', passReqToCallback = Undefined\<rparr>
     \<lparr>cas_validate = (\<lambda>t s. \<lparr>val_err = Null, val_username = ''jane'',
         val_extended = \<lparr>ext_id = Undefined, ext_attributes = [], ext_PGTIOU = Str ''PGTIOU-9''\<rparr>\<rparr>),
      cas_getProxyTicket = (\<lambda>p t. (Undefined, Str ''PT-1'')),
      verify = (\<lambda>r a. (Null, Str ''jane'', Undefined)), getTime = 0\<rparr>
     \<lparr>req_passport = Obj [], req_originalUrl = Some ''/app?x=1'', req_url = ''/app?x=1'',
      req_headers = [(''host'', ''app.example.com''), (''x-forwarded-proto'', ''https'')],
      req_protocol = Some ''http'', req_query = Some [(''x'', Str ''1'')], req_session = None\<rparr>
   = ([Redirect ''https://cas.example.com/login?service=https://app.example.com/app'' 307],
      \<lparr>req_passport = Obj [], req_originalUrl = Some ''/app?x=1'', req_url = ''/app?x=1'',
      req_headers = [(''host'', ''app.example.com''), (''x-forwarded-proto'', ''https'')],
      req_protocol = Some ''http'', req_query = Some [(''x'', Str ''1'')], req_session = None\<rparr>)"
proof -
  let ?pf = "\<lparr>url_parse = (\<lambda>u. \<lparr>pu_host = Null, pu_pathname = Str ''/app'', pu_query = [(''x'', Str ''1'')]\<rparr>),
      url_format = (\<lambda>p. case (up_protocol p, up_host p, up_pathname p) of
                           (Str a, Str b, Str c) \<Rightarrow> a @ ''://'' @ b @ c | _ \<Rightarrow> []),
      encodeURIComponent = (\<lambda>s. s), to_number = (\<lambda>v. None)\<rparr>"
  let ?req = "\<lparr>req_passport = Obj [], req_originalUrl = Some ''/app?x=1'', req_url = ''/app?x=1'',
      req_headers = [(''host'', ''app.example.com''), (''x-forwarded-proto'', ''https'')],
      req_protocol = Some ''http'', req_query = Some [(''x'', Str ''1'')], req_session = None\<rparr>"
  have 1: "truthy (req_passport ?req)" by simp
  have 2: "\<not> truthy (prop_get (pu_query (url_parse ?pf (request_url ?req))) ''ticket'')"
    by (simp add: prop_get_def)
  from no_ticket_redirects_to_login [OF 1 2] show ?thesis
    by (simp add: header_def opt_str_def js_or_def prop_delete_def)
qed

text \<open>
  Claim C1 as stated fails on a request without \<^verbatim>\<open>req._passport\<close>: the guard of line 118
  reports an error and nothing is redirected.
\<close>

theorem no_ticket_redirects_to_login_counterexample:
  "authenticate
     \<lparr>url_parse = (\<lambda>u. \<lparr>pu_host = Null, pu_pathname = Str ''/app'', pu_query = [(''x'', Str ''1'')]\<rparr>),
      url_format = (\<lambda>p. case (up_protocol p, up_host p, up_pathname p) of
                           (Str a, Str b, Str c) \<Rightarrow> a @ ''://'' @ b @ c | _ \<Rightarrow> []),
      encodeURIComponent = (\<lambda>s. s), to_number = (\<lambda>v. None)\<rparr>
     \<lparr>casBaseUrl = ''https://cas.example.com'', casPgtUrl = Undefined, casPropertyMap = [],
      casSessionKey = ''cas'', passReqToCallback = Undefined\<rparr>
     \<lparr>cas_validate = (\<lambda>t s. \<lparr>val_err = Null, val_username = ''jane'',
         val_extended = \<lparr>ext_id = Undefined, ext_attributes = [], ext_PGTIOU = Str ''PGTIOU-9''\<rparr>\<rparr>),
      cas_getProxyTicket = (\<lambda>p t. (Undefined, Str ''PT-1'')),
      verify = (\<lambda>r a. (Null, Str ''jane'', Undefined)), getTime = 0\<rparr>
     \<lparr>req_passport = Undefined, req_originalUrl = Some ''/app?x=1'', req_url = ''/app?x=1'',
      req_headers = [(''host'', ''app.example.com''), (''x-forwarded-proto'', ''https'')],
      req_protocol = Some ''http'', req_query = Some [(''x'', Str ''1'')], req_session = None\<rparr>
   = ([Error (new_Error ''passport.initialize() middleware not in use'')],
      \<lparr>req_passport = Undefined, req_originalUrl = Some ''/app?x=1'', req_url = ''/app?x=1'',
      req_headers = [(''host'', ''app.example.com''), (''x-forwarded-proto'', ''https'')],
      req_protocol = Some ''http'', req_query = Some [(''x'', Str ''1'')], req_session = None\<rparr>)
   \<and> Error (new_Error ''passport.initialize() middleware not in use'')
     \<noteq> Redirect ''https://cas.example.com/login?service=https://app.example.com/app'' 307"
  by (simp add: authenticate_def)

text \<open>The guard of line 118 in general: without \<^verbatim>\<open>req._passport\<close> nothing but the error.\<close>

lemma no_passport_reports_error:
  "\<not> truthy (req_passport req) \<Longrightarrow>
   authenticate pf self env req =
     ([Error (new_Error ''passport.initialize() middleware not in use'')], req)"
  by (simp add: authenticate_def)

lemma authenticate_failure:
  assumes "truthy (req_passport req)"
      and "ticket = prop_get (pu_query (url_parse pf (request_url req))) ''ticket''"
      and "truthy ticket"
      and "r = cas_validate env ticket (service_url pf req)"
      and "truthy (val_err r)"
  shows "authenticate pf self env req =
     (Validate ticket (service_url pf req) # validation_failed pf env req (val_err r), req)"
  using assms by (simp add: authenticate_def Let_def service_url_def)

text \<open>
  What \<open>authenticate\<close> does after a failed validation.  Without parsed query the read of
  line 149 throws.  Otherwise it redirects (307) to the rewritten URL when \<open>_cas_retry\<close>
  is not equal, in the sense of \<^verbatim>\<open>!=\<close>, to the token of the current minute window, and
  fails with the validation error when it is equal; the token as the redirect writes it is
  recognised as equal by every platform that reads a decimal numeral as its number.
\<close>

lemma failed_validation_outcome:
  assumes "truthy (req_passport req)"
      and "ticket = prop_get (pu_query (url_parse pf (request_url req))) ''ticket''"
      and "truthy ticket"
      and "r = cas_validate env ticket (service_url pf req)"
      and "truthy (val_err r)"
      and "token = window_token (getTime env)"
  shows "(req_query req = None \<longrightarrow>
            authenticate pf self env req =
              ([Validate ticket (service_url pf req), Threw ''TypeError''], req))
       \<and> (req_query req = Some query \<and> loose_neq pf (prop_get query ''_cas_retry'') token \<longrightarrow>
            authenticate pf self env req =
              ([Validate ticket (service_url pf req),
                Redirect (retry_url token (request_url req)) 307], req))
       \<and> (req_query req = Some query \<and> \<not> loose_neq pf (prop_get query ''_cas_retry'') token \<longrightarrow>
            authenticate pf self env req =
              ([Validate ticket (service_url pf req), Fail (val_err r)], req))
       \<and> (req_query req = Some query \<and> prop_get query ''_cas_retry'' = Str (dec_int token)
            \<and> to_number pf (Str (dec_int token)) = Some token \<longrightarrow>
            authenticate pf self env req =
              ([Validate ticket (service_url pf req), Fail (val_err r)], req))"
  using authenticate_failure [OF assms(1-5), of self] assms(6)
  by (auto simp: validation_failed_def Let_def loose_neq_def)

text \<open>
  The intended course on a well-formed URL: a first failure in the window is redirected to
  the URL without the ticket and with the token, a failure on a request that carries the
  token of the window is reported.
\<close>

lemma failed_validation_example:
  "authenticate
     \<lparr>url_parse = (\<lambda>u. \<lparr>pu_host = Null, pu_pathname = Str ''/app'', pu_query = [(''a'', Str ''1''), (''_cas_retry'', Str ''27''), (''ticket'', Str ''ST-1'')]\<rparr>),
      url_format = (\<lambda>p. case (up_protocol p, up_host p, up_pathname p) of
                           (Str a, Str b, Str c) \<Rightarrow> a @ ''://'' @ b @ c | _ \<Rightarrow> []),
      encodeURIComponent = (\<lambda>s. s),
      to_number = (\<lambda>v. case v of Str s \<Rightarrow> (if s = ''28333333'' then Some 28333333 else None)
                             | _ \<Rightarrow> None)\<rparr>
     \<lparr>casBaseUrl = ''https://cas.example.com'', casPgtUrl = Undefined, casPropertyMap = [],
      casSessionKey = ''cas'', passReqToCallback = Undefined\<rparr>
     \<lparr>cas_validate = (\<lambda>t s. \<lparr>val_err = new_Error ''CAS authentication failed'',
         val_username = [],
         val_extended = \<lparr>ext_id = Undefined, ext_attributes = [], ext_PGTIOU = Undefined\<rparr>\<rparr>),
      cas_getProxyTicket = (\<lambda>p t. (Undefined, Str ''PT-1'')),
      verify = (\<lambda>r a. (Null, Str ''jane'', Undefined)), getTime = 1700000000000\<rparr>
     \<lparr>req_passport = Obj [], req_originalUrl = Some ''/app?a=1&_cas_retry=27&ticket=ST-1'', req_url = ''/app?a=1&_cas_retry=27&ticket=ST-1'',
      req_headers = [(''host'', ''app.example.com'')],
      req_protocol = Some ''https'', req_query = Some [(''a'', Str ''1''), (''_cas_retry'', Str ''27''), (''ticket'', Str ''ST-1'')], req_session = Some []\<rparr>
   = ([Validate (Str ''ST-1'') ''https://app.example.com/app'',
       Redirect ''/app?a=1&_cas_retry=28333333'' 307],
      \<lparr>req_passport = Obj [], req_originalUrl = Some ''/app?a=1&_cas_retry=27&ticket=ST-1'', req_url = ''/app?a=1&_cas_retry=27&ticket=ST-1'',
      req_headers = [(''host'', ''app.example.com'')],
      req_protocol = Some ''https'', req_query = Some [(''a'', Str ''1''), (''_cas_retry'', Str ''27''), (''ticket'', Str ''ST-1'')], req_session = Some []\<rparr>)
   \<and> authenticate
     \<lparr>url_parse = (\<lambda>u. \<lparr>pu_host = Null, pu_pathname = Str ''/app'', pu_query = [(''_cas_retry'', Str ''28333333''), (''ticket'', Str ''ST-2'')]\<rparr>),
      url_format = (\<lambda>p. case (up_protocol p, up_host p, up_pathname p) of
                           (Str a, Str b, Str c) \<Rightarrow> a @ ''://'' @ b @ c | _ \<Rightarrow> []),
      encodeURIComponent = (\<lambda>s. s),
      to_number = (\<lambda>v. case v of Str s \<Rightarrow> (if s = ''28333333'' then Some 28333333 else None)
                             | _ \<Rightarrow> None)\<rparr>
     \<lparr>casBaseUrl = ''https://cas.example.com'', casPgtUrl = Undefined, casPropertyMap = [],
      casSessionKey = ''cas'', passReqToCallback = Undefined\<rparr>
     \<lparr>cas_validate = (\<lambda>t s. \<lparr>val_err = new_Error ''CAS authentication failed'',
         val_username = [],
         val_extended = \<lparr>ext_id = Undefined, ext_attributes = [], ext_PGTIOU = Undefined\<rparr>\<rparr>),
      cas_getProxyTicket = (\<lambda>p t. (Undefined, Str ''PT-1'')),
      verify = (\<lambda>r a. (Null, Str ''jane'', Undefined)), getTime = 1700000000000\<rparr>
     \<lparr>req_passport = Obj [], req_originalUrl = Some ''/app?_cas_retry=28333333&ticket=ST-2'', req_url = ''/app?_cas_retry=28333333&ticket=ST-2'',
      req_headers = [(''host'', ''app.example.com'')],
      req_protocol = Some ''https'', req_query = Some [(''_cas_retry'', Str ''28333333''), (''ticket'', Str ''ST-2'')], req_session = Some []\<rparr>
   = ([Validate (Str ''ST-2'') ''https://app.example.com/app'',
       Fail (new_Error ''CAS authentication failed'')],
      \<lparr>req_passport = Obj [], req_originalUrl = Some ''/app?_cas_retry=28333333&ticket=ST-2'', req_url = ''/app?_cas_retry=28333333&ticket=ST-2'',
      req_headers = [(''host'', ''app.example.com'')],
      req_protocol = Some ''https'', req_query = Some [(''_cas_retry'', Str ''28333333''), (''ticket'', Str ''ST-2'')], req_session = Some []\<rparr>)"
proof -
  let ?pf1 = "\<lparr>url_parse = (\<lambda>u. \<lparr>pu_host = Null, pu_pathname = Str ''/app'', pu_query = [(''a'', Str ''1''), (''_cas_retry'', Str ''27''), (''ticket'', Str ''ST-1'')]\<rparr>),
      url_format = (\<lambda>p. case (up_protocol p, up_host p, up_pathname p) of
                           (Str a, Str b, Str c) \<Rightarrow> a @ ''://'' @ b @ c | _ \<Rightarrow> []),
      encodeURIComponent = (\<lambda>s. s),
      to_number = (\<lambda>v. case v of Str s \<Rightarrow> (if s = ''28333333'' then Some 28333333 else None)
                             | _ \<Rightarrow> None)\<rparr>"
  let ?pf2 = "\<lparr>url_parse = (\<lambda>u. \<lparr>pu_host = Null, pu_pathname = Str ''/app'', pu_query = [(''_cas_retry'', Str ''28333333''), (''ticket'', Str ''ST-2'')]\<rparr>),
      url_format = (\<lambda>p. case (up_protocol p, up_host p, up_pathname p) of
                           (Str a, Str b, Str c) \<Rightarrow> a @ ''://'' @ b @ c | _ \<Rightarrow> []),
      encodeURIComponent = (\<lambda>s. s),
      to_number = (\<lambda>v. case v of Str s \<Rightarrow> (if s = ''28333333'' then Some 28333333 else None)
                             | _ \<Rightarrow> None)\<rparr>"
  let ?self = "\<lparr>casBaseUrl = ''https://cas.example.com'', casPgtUrl = Undefined, casPropertyMap = [],
      casSessionKey = ''cas'', passReqToCallback = Undefined\<rparr>"
  let ?env = "\<lparr>cas_validate = (\<lambda>t s. \<lparr>val_err = new_Error ''CAS authentication failed'',
         val_username = [],
         val_extended = \<lparr>ext_id = Undefined, ext_attributes = [], ext_PGTIOU = Undefined\<rparr>\<rparr>),
      cas_getProxyTicket = (\<lambda>p t. (Undefined, Str ''PT-1'')),
      verify = (\<lambda>r a. (Null, Str ''jane'', Undefined)), getTime = 1700000000000\<rparr>"
  let ?r1 = "\<lparr>req_passport = Obj [], req_originalUrl = Some ''/app?a=1&_cas_retry=27&ticket=ST-1'', req_url = ''/app?a=1&_cas_retry=27&ticket=ST-1'',
      req_headers = [(''host'', ''app.example.com'')],
      req_protocol = Some ''https'', req_query = Some [(''a'', Str ''1''), (''_cas_retry'', Str ''27''), (''ticket'', Str ''ST-1'')], req_session = Some []\<rparr>"
  let ?r2 = "\<lparr>req_passport = Obj [], req_originalUrl = Some ''/app?_cas_retry=28333333&ticket=ST-2'', req_url = ''/app?_cas_retry=28333333&ticket=ST-2'',
      req_headers = [(''host'', ''app.example.com'')],
      req_protocol = Some ''https'', req_query = Some [(''_cas_retry'', Str ''28333333''), (''ticket'', Str ''ST-2'')], req_session = Some []\<rparr>"
  let ?ps = "[(''a'', ''1''), (''_cas_retry'', ''27''), (''ticket'', ''ST-1'')]"
  have tok: "window_token (getTime ?env) = 28333333" by (simp add: window_token_def)
  have sv1: "service_url ?pf1 ?r1 = ''https://app.example.com/app''"
    by (simp add: service_url_def service_parts_def header_def opt_str_def js_or_def)
  have sv2: "service_url ?pf2 ?r2 = ''https://app.example.com/app''"
    by (simp add: service_url_def service_parts_def header_def opt_str_def js_or_def)
  have p1: "truthy (req_passport ?r1)" and p2: "truthy (req_passport ?r2)" by simp_all
  have t1: "truthy (prop_get (pu_query (url_parse ?pf1 (request_url ?r1))) ''ticket'')"
    by (simp add: prop_get_def)
  have t2: "truthy (prop_get (pu_query (url_parse ?pf2 (request_url ?r2))) ''ticket'')"
    by (simp add: prop_get_def)
  have e1: "truthy (val_err (cas_validate ?env
      (prop_get (pu_query (url_parse ?pf1 (request_url ?r1))) ''ticket'') (service_url ?pf1 ?r1)))"
    by (simp add: new_Error_def)
  have e2: "truthy (val_err (cas_validate ?env
      (prop_get (pu_query (url_parse ?pf2 (request_url ?r2))) ''ticket'') (service_url ?pf2 ?r2)))"
    by (simp add: new_Error_def)
  let ?q1 = "[(''a'', Str ''1''), (''_cas_retry'', Str ''27''), (''ticket'', Str ''ST-1'')]"
  let ?q2 = "[(''_cas_retry'', Str ''28333333''), (''ticket'', Str ''ST-2'')]"
  have n1: "req_query ?r1 = Some ?q1 \<and> loose_neq ?pf1 (prop_get ?q1 ''_cas_retry'') 28333333"
    by (simp add: loose_neq_def prop_get_def)
  have n2: "req_query ?r2 = Some ?q2
      \<and> prop_get ?q2 ''_cas_retry'' = Str (dec_int 28333333)
      \<and> to_number ?pf2 (Str (dec_int 28333333)) = Some 28333333"
    by (simp add: prop_get_def dec_int_def)
  have u: "request_url ?r1 = render_url ''/app'' ?ps"
    by (simp add: request_url_def render_url_def)
  have wf: "well_formed_query ''/app'' ?ps"
    by (simp add: well_formed_query_def param_ok_def plain_char_def is_digit_def
        ticket_char_def suffix_def)
  have sp: "spec_retry_url (dec_int 28333333) ''/app'' ?ps = ''/app?a=1&_cas_retry=28333333''"
    by (simp add: spec_retry_url_def render_url_def dec_int_def)
  note th1 = failed_validation_outcome [OF p1 refl t1 refl e1 tok [symmetric],
      where self = ?self and query = ?q1]
  note wf1 = retry_url_well_formed [OF wf, of 28333333]
  from th1 n1 have a: "authenticate ?pf1 ?self ?env ?r1 =
      ([Validate (prop_get (pu_query (url_parse ?pf1 (request_url ?r1))) ''ticket'')
          (service_url ?pf1 ?r1),
        Redirect (retry_url 28333333 (request_url ?r1)) 307], ?r1)"
    by blast
  from wf1 u have b: "retry_url 28333333 (request_url ?r1)
      = spec_retry_url (dec_int 28333333) ''/app'' ?ps"
    by simp
  have tk1: "prop_get (pu_query (url_parse ?pf1 (request_url ?r1))) ''ticket'' = Str ''ST-1''"
    by (simp add: prop_get_def)
  have 1: "authenticate ?pf1 ?self ?env ?r1 =
      ([Validate (Str ''ST-1'') ''https://app.example.com/app'',
        Redirect ''/app?a=1&_cas_retry=28333333'' 307], ?r1)"
    by (simp only: a b sp sv1 tk1)
  note th2 = failed_validation_outcome [OF p2 refl t2 refl e2 tok [symmetric],
      where self = ?self and query = ?q2]
  from th2 n2 have c: "authenticate ?pf2 ?self ?env ?r2 =
      ([Validate (prop_get (pu_query (url_parse ?pf2 (request_url ?r2))) ''ticket'')
          (service_url ?pf2 ?r2),
        Fail (val_err (cas_validate ?env
          (prop_get (pu_query (url_parse ?pf2 (request_url ?r2))) ''ticket'')
          (service_url ?pf2 ?r2)))], ?r2)"
    by blast
  have tk2: "prop_get (pu_query (url_parse ?pf2 (request_url ?r2))) ''ticket'' = Str ''ST-2''"
    by (simp add: prop_get_def)
  have er2: "val_err (cas_validate ?env (Str ''ST-2'') ''https://app.example.com/app'')
      = new_Error ''CAS authentication failed''"
    by simp
  have 2: "authenticate ?pf2 ?self ?env ?r2 =
      ([Validate (Str ''ST-2'') ''https://app.example.com/app'',
        Fail (new_Error ''CAS authentication failed'')], ?r2)"
    by (simp only: c sv2 tk2 er2)
  from 1 2 show ?thesis by simp
qed


text \<open>
  Claim C2.  The claim fails on the code at a request whose ticket holds a character
  outside \<^verbatim>\<open>[\w.-]\<close>.  The comment of lines 150-153 says the ticket is removed, and the
  specification that the \<open>ticket\<close> parameter is replaced by \<open>_cas_retry=<token>\<close>; the
  expression of line 156 stops at the first character it does not list, so the rest of
  the ticket stays in the URL, behind the token.
\<close>

theorem retry_rewrite_keeps_ticket_tail:
  "authenticate
     \<lparr>url_parse = (\<lambda>u. \<lparr>pu_host = Null, pu_pathname = Str ''/app'', pu_query = [(''ticket'', Str ''ST-1~x'')]\<rparr>),
      url_format = (\<lambda>p. case (up_protocol p, up_host p, up_pathname p) of
                           (Str a, Str b, Str c) \<Rightarrow> a @ ''://'' @ b @ c | _ \<Rightarrow> []),
      encodeURIComponent = (\<lambda>s. s),
      to_number = (\<lambda>v. case v of Str s \<Rightarrow> (if s = ''28333333'' then Some 28333333 else None)
                             | _ \<Rightarrow> None)\<rparr>
     \<lparr>casBaseUrl = ''https://cas.example.com'', casPgtUrl = Undefined, casPropertyMap = [],
      casSessionKey = ''cas'', passReqToCallback = Undefined\<rparr>
     \<lparr>cas_validate = (\<lambda>t s. \<lparr>val_err = new_Error ''CAS authentication failed'',
         val_username = [],
         val_extended = \<lparr>ext_id = Undefined, ext_attributes = [], ext_PGTIOU = Undefined\<rparr>\<rparr>),
      cas_getProxyTicket = (\<lambda>p t. (Undefined, Str ''PT-1'')),
      verify = (\<lambda>r a. (Null, Str ''jane'', Undefined)), getTime = 1700000000000\<rparr>
     \<lparr>req_passport = Obj [], req_originalUrl = Some ''/app?ticket=ST-1~x'', req_url = ''/app?ticket=ST-1~x'',
      req_headers = [(''host'', ''app.example.com'')],
      req_protocol = Some ''https'', req_query = Some [(''ticket'', Str ''ST-1~x'')], req_session = Some []\<rparr>
   = ([Validate (Str ''ST-1~x'') ''https://app.example.com/app'',
       Redirect ''/app?_cas_retry=28333333~x'' 307],
      \<lparr>req_passport = Obj [], req_originalUrl = Some ''/app?ticket=ST-1~x'', req_url = ''/app?ticket=ST-1~x'',
      req_headers = [(''host'', ''app.example.com'')],
      req_protocol = Some ''https'', req_query = Some [(''ticket'', Str ''ST-1~x'')], req_session = Some []\<rparr>)
   \<and> request_url
     \<lparr>req_passport = Obj [], req_originalUrl = Some ''/app?ticket=ST-1~x'', req_url = ''/app?ticket=ST-1~x'',
      req_headers = [(''host'', ''app.example.com'')],
      req_protocol = Some ''https'', req_query = Some [(''ticket'', Str ''ST-1~x'')], req_session = Some []\<rparr>
     = render_url ''/app'' [(''ticket'', ''ST-1~x'')]
   \<and> spec_retry_url ''28333333'' ''/app'' [(''ticket'', ''ST-1~x'')] = ''/app?_cas_retry=28333333''
   \<and> ''/app?_cas_retry=28333333~x'' \<noteq> spec_retry_url ''28333333'' ''/app'' [(''ticket'', ''ST-1~x'')]"
  by (simp add: authenticate_def validation_failed_def Let_def prop_get_def request_url_def
      service_parts_def header_def opt_str_def js_or_def new_Error_def window_token_def
      loose_neq_def retry_url_def dec_int_def retry_match_def ticket_match_def
      is_digit_def ticket_char_def spec_retry_url_def render_url_def)


text \<open>
  Two more URLs on which the expressions miss: a \<open>_cas_retry\<close> in last position leaves its
  \<open>&\<close> behind, and a parameter whose name merely ends in \<open>_cas_retry\<close> is cut in two, after
  which no ticket is found.
\<close>

lemma retry_url_misses:
  "retry_url 28333333 ''/app?ticket=ST-1&_cas_retry=27'' = ''/app?_cas_retry=28333333&''
   \<and> retry_url 28333333 ''/app?my_cas_retry=12&ticket=ST-1'' = ''/app?myticket=ST-1''"
  by (simp add: retry_url_def dec_int_def retry_match_def ticket_match_def is_digit_def
      ticket_char_def)




text \<open>
  Claim C9, amended.  On a successful validation of a request that has a session object,
  the entry under the session key is replaced before the verify callback is called: the
  callback sees, and \<open>authenticate\<close> leaves, a session whose entry is the empty object
  when no PGT callback URL is configured (whatever was stored before), and the object
  holding only the PGTIOU of this validation when one is.
\<close>

theorem session_entry_replaced:
  assumes "truthy (req_passport req)"
      and "ticket = prop_get (pu_query (url_parse pf (request_url req))) ''ticket''"
      and "truthy ticket"
      and "r = cas_validate env ticket (service_url pf req)"
      and "\<not> truthy (val_err r)"
      and "req_session req = Some session"
      and "entry = (if truthy (casPgtUrl self)
                    then Obj [(''PGTIOU'', ext_PGTIOU (val_extended r))] else Obj [])"
      and "req' = req\<lparr>req_session := Some (prop_set (casSessionKey self) entry session)\<rparr>"
      and "args = \<lparr>va_req = (if truthy (passReqToCallback self) then Some req' else None),
                   va_username = val_username r,
                   va_profile = build_profile (casPropertyMap self) (val_username r)
                                  (val_extended r)\<rparr>"
  shows "authenticate pf self env req =
           ([Validate ticket (service_url pf req), Verify req' args,
             verified (verify env req' args)], req')
         \<and> map_option (\<lambda>s. prop_get s (casSessionKey self)) (req_session req') = Some entry
         \<and> (\<not> truthy (casPgtUrl self) \<longrightarrow> entry = Obj [])"
proof -
  have s: "prop_set k v (prop_set k w obj) = prop_set k v obj" for k v w obj
    by (simp add: prop_set_def)
  have "validation_succeeded self env req (val_username r) (val_extended r) =
      ([Verify req' args, verified (verify env req' args)], req')"
    using assms(6-9)
    by (simp add: validation_succeeded_def Let_def prop_get_prop_set s) (simp add: prop_set_def)
  with authenticate_success [OF assms(1-5)] assms(7,8) show ?thesis
    by (simp add: prop_get_prop_set)
qed

theorem session_entry_replaced_witness:
  "req_session (snd (authenticate
     \<lparr>url_parse = (\<lambda>u. \<lparr>pu_host = Null, pu_pathname = Str ''/app'',
                           pu_query = [(''ticket'', Str ''ST-1'')]\<rparr>),
      url_format = (\<lambda>p. case (up_protocol p, up_host p, up_pathname p) of
                           (Str a, Str b, Str c) \<Rightarrow> a @ ''://'' @ b @ c | _ \<Rightarrow> []),
      encodeURIComponent = (\<lambda>s. s), to_number = (\<lambda>v. None)\<rparr>
     \<lparr>casBaseUrl = ''https://cas.example.com'', casPgtUrl = Undefined, casPropertyMap = [],
      casSessionKey = ''cas'', passReqToCallback = Undefined\<rparr>
     \<lparr>cas_validate = (\<lambda>t s. \<lparr>val_err = Null, val_username = ''jane'',
         val_extended = \<lparr>ext_id = Undefined, ext_attributes = [], ext_PGTIOU = Str ''PGTIOU-9''\<rparr>\<rparr>),
      cas_getProxyTicket = (\<lambda>p t. (Undefined, Str ''PT-1'')),
      verify = (\<lambda>r a. (Null, Str ''jane'', Undefined)), getTime = 0\<rparr>
     \<lparr>req_passport = Obj [], req_originalUrl = Some ''/app?ticket=ST-1'', req_url = ''/app?ticket=ST-1'',
      req_headers = [(''host'', ''app.example.com''), (''x-forwarded-proto'', ''https'')],
      req_protocol = Some ''http'', req_query = Some [(''ticket'', Str ''ST-1'')], req_session = Some [(''cas'', Obj [(''PGTIOU'', Str ''PGTIOU-1'')]), (''views'', Num 3)]\<rparr>))
   = Some [(''cas'', Obj []), (''views'', Num 3)]"
proof -
  let ?pf = "\<lparr>url_parse = (\<lambda>u. \<lparr>pu_host = Null, pu_pathname = Str ''/app'',
                           pu_query = [(''ticket'', Str ''ST-1'')]\<rparr>),
      url_format = (\<lambda>p. case (up_protocol p, up_host p, up_pathname p) of
                           (Str a, Str b, Str c) \<Rightarrow> a @ ''://'' @ b @ c | _ \<Rightarrow> []),
      encodeURIComponent = (\<lambda>s. s), to_number = (\<lambda>v. None)\<rparr>"
  let ?self = "\<lparr>casBaseUrl = ''https://cas.example.com'', casPgtUrl = Undefined, casPropertyMap = [],
      casSessionKey = ''cas'', passReqToCallback = Undefined\<rparr>"
  let ?env = "\<lparr>cas_validate = (\<lambda>t s. \<lparr>val_err = Null, val_username = ''jane'',
         val_extended = \<lparr>ext_id = Undefined, ext_attributes = [], ext_PGTIOU = Str ''PGTIOU-9''\<rparr>\<rparr>),
      cas_getProxyTicket = (\<lambda>p t. (Undefined, Str ''PT-1'')),
      verify = (\<lambda>r a. (Null, Str ''jane'', Undefined)), getTime = 0\<rparr>"
  let ?req = "\<lparr>req_passport = Obj [], req_originalUrl = Some ''/app?ticket=ST-1'', req_url = ''/app?ticket=ST-1'',
      req_headers = [(''host'', ''app.example.com''), (''x-forwarded-proto'', ''https'')],
      req_protocol = Some ''http'', req_query = Some [(''ticket'', Str ''ST-1'')], req_session = Some [(''cas'', Obj [(''PGTIOU'', Str ''PGTIOU-1'')]), (''views'', Num 3)]\<rparr>"
  have 1: "truthy (req_passport ?req)" by simp
  have 3: "truthy (prop_get (pu_query (url_parse ?pf (request_url ?req))) ''ticket'')"
    by (simp add: prop_get_def)
  have 5: "\<not> truthy (val_err (cas_validate ?env
      (prop_get (pu_query (url_parse ?pf (request_url ?req))) ''ticket'') (service_url ?pf ?req)))"
    by simp
  have 6: "req_session ?req = Some [(''cas'', Obj [(''PGTIOU'', Str ''PGTIOU-1'')]), (''views'', Num 3)]"
    by simp
  from session_entry_replaced [OF 1 refl 3 refl 5 6 refl refl refl, of ?self] show ?thesis
    by (simp add: prop_set_def)
qed

text \<open>
  Claim C9 as stated fails on a request without session object: the assignment of line 173
  throws, nothing is replaced and the verify callback is not called.
\<close>

theorem session_entry_replaced_counterexample:
  "authenticate
     \<lparr>url_parse = (\<lambda>u. \<lparr>pu_host = Null, pu_pathname = Str ''/app'',
                           pu_query = [(''ticket'', Str ''ST-1'')]\<rparr>),
      url_format = (\<lambda>p. case (up_protocol p, up_host p, up_pathname p) of
                           (Str a, Str b, Str c) \<Rightarrow> a @ ''://'' @ b @ c | _ \<Rightarrow> []),
      encodeURIComponent = (\<lambda>s. s), to_number = (\<lambda>v. None)\<rparr>
     \<lparr>casBaseUrl = ''https://cas.example.com'', casPgtUrl = Undefined, casPropertyMap = [],
      casSessionKey = ''cas'', passReqToCallback = Undefined\<rparr>
     \<lparr>cas_validate = (\<lambda>t s. \<lparr>val_err = Null, val_username = ''jane'',
         val_extended = \<lparr>ext_id = Undefined, ext_attributes = [], ext_PGTIOU = Str ''PGTIOU-9''\<rparr>\<rparr>),
      cas_getProxyTicket = (\<lambda>p t. (Undefined, Str ''PT-1'')),
      verify = (\<lambda>r a. (Null, Str ''jane'', Undefined)), getTime = 0\<rparr>
     \<lparr>req_passport = Obj [], req_originalUrl = Some ''/app?ticket=ST-1'', req_url = ''/app?ticket=ST-1'',
      req_headers = [(''host'', ''app.example.com''), (''x-forwarded-proto'', ''https'')],
      req_protocol = Some ''http'', req_query = Some [(''ticket'', Str ''ST-1'')], req_session = None\<rparr>
   = ([Validate (Str ''ST-1'') ''https://app.example.com/app'', Threw ''TypeError''],
      \<lparr>req_passport = Obj [], req_originalUrl = Some ''/app?ticket=ST-1'', req_url = ''/app?ticket=ST-1'',
      req_headers = [(''host'', ''app.example.com''), (''x-forwarded-proto'', ''https'')],
      req_protocol = Some ''http'', req_query = Some [(''ticket'', Str ''ST-1'')], req_session = None\<rparr>)
   \<and> req_session
     \<lparr>req_passport = Obj [], req_originalUrl = Some ''/app?ticket=ST-1'', req_url = ''/app?ticket=ST-1'',
      req_headers = [(''host'', ''app.example.com''), (''x-forwarded-proto'', ''https'')],
      req_protocol = Some ''http'', req_query = Some [(''ticket'', Str ''ST-1'')], req_session = None\<rparr> = None"
  by (simp add: authenticate_def validation_succeeded_def Let_def prop_get_def request_url_def
      service_parts_def header_def opt_str_def js_or_def)

section \<open>Properties of getProxyTicket\<close>

text \<open>
  Claim C7.  \<open>getProxyTicket\<close> reports "Session is not found" when the request has no
  session, "User is not authenticated with CAS" when the session has nothing (or a falsy
  value) under the session key, and "PGTIOU token not found" when the record under the key
  holds no PGTIOU (or a falsy one).
  In each case the completion callback is called once, with the error alone, and the
  proxy-ticket exchange of the CAS client is not called, whatever the collaborators are.
\<close>

theorem getProxyTicket_failures:
  "(req_session req = None \<longrightarrow>
      getProxyTicket self env req target = [Done [new_Error ''Session is not found'']])
   \<and> (req_session req = Some session \<and> \<not> truthy (prop_get session (casSessionKey self)) \<longrightarrow>
      getProxyTicket self env req target =
        [Done [new_Error ''User is not authenticated with CAS'']])
   \<and> (req_session req = Some session \<and> truthy (prop_get session (casSessionKey self))
      \<and> \<not> truthy (prop_get (props_of (prop_get session (casSessionKey self))) ''PGTIOU'') \<longrightarrow>
      getProxyTicket self env req target =
        [Done [new_Error ''PGTIOU token not found. Make sure pgtURL option is correct, and the CAS server allows proxies.'']])"
  by (simp add: getProxyTicket_def new_Error_def)

theorem getProxyTicket_failures_witness:
  "getProxyTicket
     \<lparr>casBaseUrl = ''https://cas.example.com'', casPgtUrl = Undefined, casPropertyMap = [],
      casSessionKey = ''cas'', passReqToCallback = Undefined\<rparr>
     \<lparr>cas_validate = (\<lambda>t s. \<lparr>val_err = Null, val_username = ''jane'',
         val_extended = \<lparr>ext_id = Undefined, ext_attributes = [], ext_PGTIOU = Undefined\<rparr>\<rparr>),
      cas_getProxyTicket = (\<lambda>p t. (Undefined, Str ''PT-1'')),
      verify = (\<lambda>r a. (Null, Str ''jane'', Undefined)), getTime = 0\<rparr>
     \<lparr>req_passport = Obj [], req_originalUrl = None, req_url = ''/data'', req_headers = [],
      req_protocol = None, req_query = Some [], req_session = None\<rparr>
     ''http://service.example.com/''
   = [Done [new_Error ''Session is not found'']]
   \<and> getProxyTicket
     \<lparr>casBaseUrl = ''https://cas.example.com'', casPgtUrl = Undefined, casPropertyMap = [],
      casSessionKey = ''cas'', passReqToCallback = Undefined\<rparr>
     \<lparr>cas_validate = (\<lambda>t s. \<lparr>val_err = Null, val_username = ''jane'',
         val_extended = \<lparr>ext_id = Undefined, ext_attributes = [], ext_PGTIOU = Undefined\<rparr>\<rparr>),
      cas_getProxyTicket = (\<lambda>p t. (Undefined, Str ''PT-1'')),
      verify = (\<lambda>r a. (Null, Str ''jane'', Undefined)), getTime = 0\<rparr>
     \<lparr>req_passport = Obj [], req_originalUrl = None, req_url = ''/data'', req_headers = [],
      req_protocol = None, req_query = Some [], req_session = Some [(''views'', Num 3)]\<rparr>
     ''http://service.example.com/''
   = [Done [new_Error ''User is not authenticated with CAS'']]
   \<and> getProxyTicket
     \<lparr>casBaseUrl = ''https://cas.example.com'', casPgtUrl = Undefined, casPropertyMap = [],
      casSessionKey = ''cas'', passReqToCallback = Undefined\<rparr>
     \<lparr>cas_validate = (\<lambda>t s. \<lparr>val_err = Null, val_username = ''jane'',
         val_extended = \<lparr>ext_id = Undefined, ext_attributes = [], ext_PGTIOU = Undefined\<rparr>\<rparr>),
      cas_getProxyTicket = (\<lambda>p t. (Undefined, Str ''PT-1'')),
      verify = (\<lambda>r a. (Null, Str ''jane'', Undefined)), getTime = 0\<rparr>
     \<lparr>req_passport = Obj [], req_originalUrl = None, req_url = ''/data'', req_headers = [],
      req_protocol = None, req_query = Some [], req_session = Some [(''cas'', Obj [])]\<rparr>
     ''http://service.example.com/''
   = [Done [new_Error ''PGTIOU token not found. Make sure pgtURL option is correct, and the CAS server allows proxies.'']]"
proof -
  let ?self = "\<lparr>casBaseUrl = ''https://cas.example.com'', casPgtUrl = Undefined,
      casPropertyMap = [], casSessionKey = ''cas'', passReqToCallback = Undefined\<rparr>"
  let ?env = "\<lparr>cas_validate = (\<lambda>t s. \<lparr>val_err = Null, val_username = ''jane'',
         val_extended = \<lparr>ext_id = Undefined, ext_attributes = [], ext_PGTIOU = Undefined\<rparr>\<rparr>),
      cas_getProxyTicket = (\<lambda>p t. (Undefined, Str ''PT-1'')),
      verify = (\<lambda>r a. (Null, Str ''jane'', Undefined)), getTime = 0\<rparr>"
  let ?req = "\<lambda>s. \<lparr>req_passport = Obj [], req_originalUrl = None, req_url = ''/data'',
      req_headers = [], req_protocol = None, req_query = Some [], req_session = s\<rparr>"
  have 1: "getProxyTicket ?self ?env (?req None) ''http://service.example.com/''
      = [Done [new_Error ''Session is not found'']]"
    using getProxyTicket_failures [where req = "?req None" and self = ?self and env = ?env
        and target = "''http://service.example.com/''"]
    by simp
  have 2: "getProxyTicket ?self ?env (?req (Some [(''views'', Num 3)]))
      ''http://service.example.com/'' = [Done [new_Error ''User is not authenticated with CAS'']]"
    using getProxyTicket_failures [where req = "?req (Some [(''views'', Num 3)])"
        and self = ?self and env = ?env and session = "[(''views'', Num 3)]"
        and target = "''http://service.example.com/''"]
    by (simp add: prop_get_def)
  have 3: "getProxyTicket ?self ?env (?req (Some [(''cas'', Obj [])]))
      ''http://service.example.com/'' = [Done [new_Error ''PGTIOU token not found. Make sure pgtURL option is correct, and the CAS server allows proxies.'']]"
    using getProxyTicket_failures [where req = "?req (Some [(''cas'', Obj [])])"
        and self = ?self and env = ?env and session = "[(''cas'', Obj [])]"
        and target = "''http://service.example.com/''"]
    by (simp add: prop_get_def)
  from 1 2 3 show ?thesis by simp
qed

end
